theory Spec2Isabelle
  imports Main "HOL-Library.AList"
begin

section \<open>JavaScript strings, arrays and plan values\<close>

text \<open>
  The grouping engine of \<^verbatim>\<open>TLDWrapper.tsx\<close> works on strings with \<^verbatim>\<open>split\<close>,
  \<^verbatim>\<open>join\<close>, \<^verbatim>\<open>startsWith\<close> and \<^verbatim>\<open>trim\<close>, on arrays read by index, and on the
  loosely typed values of the plan document. Reading a property of \<^verbatim>\<open>undefined\<close> or
  \<^verbatim>\<open>null\<close> raises a \<^verbatim>\<open>TypeError\<close>: that is the only exception the modelled code can
  raise, and it is a value of the model.
\<close>

datatype error = TypeError

text \<open>\<^verbatim>\<open>s.split(c)\<close> for a one-character separator: the empty string gives \<^verbatim>\<open>[""]\<close>.\<close>

fun str_split :: "char \<Rightarrow> string \<Rightarrow> string list" where
  "str_split c [] = [[]]"
| "str_split c (x # xs) =
     (if x = c then [] # str_split c xs
      else (case str_split c xs of [] \<Rightarrow> [[x]] | p # ps \<Rightarrow> (x # p) # ps))"

text \<open>\<^verbatim>\<open>parts.join(sep)\<close>.\<close>

fun str_join :: "string \<Rightarrow> string list \<Rightarrow> string" where
  "str_join sep [] = []"
| "str_join sep [p] = p"
| "str_join sep (p # q # ps) = p @ sep @ str_join sep (q # ps)"

definition startsWith :: "string \<Rightarrow> string \<Rightarrow> bool" where
  "startsWith s p = (take (length p) s = p)"

text \<open>\<^verbatim>\<open>xs[i]\<close>: \<^verbatim>\<open>undefined\<close> (here \<open>None\<close>) out of range.\<close>

definition at_index :: "'a list \<Rightarrow> nat \<Rightarrow> 'a option" where
  "at_index xs i = (if i < length xs then Some (xs ! i) else None)"

text \<open>\<^verbatim>\<open>xs.indexOf(x)\<close>: \<open>None\<close> stands for \<^verbatim>\<open>-1\<close>.\<close>

fun indexOf :: "'a list \<Rightarrow> 'a \<Rightarrow> nat option" where
  "indexOf [] x = None"
| "indexOf (y # ys) x =
     (if y = x then Some 0 else (case indexOf ys x of None \<Rightarrow> None | Some i \<Rightarrow> Some (Suc i)))"

text \<open>\<^verbatim>\<open>s.trim()\<close>, on the ASCII white space characters.\<close>

definition is_space :: "char \<Rightarrow> bool" where
  "is_space c = (c \<in> set [CHR '' '', CHR 0x09, CHR 0x0A, CHR 0x0B, CHR 0x0C, CHR 0x0D])"

definition trim :: "string \<Rightarrow> string" where
  "trim s = rev (dropWhile is_space (rev (dropWhile is_space s)))"

text \<open>
  A value of the parsed plan document, with \<^verbatim>\<open>undefined\<close> for what is absent. An object
  is the list of its own properties. Numbers are only tested for being zero.
\<close>

datatype jsval =
    JUndefined
  | JNull
  | JBool bool
  | JNum int
  | JStr string
  | JArr "jsval list"
  | JObj "(string \<times> jsval) list"

fun truthy :: "jsval \<Rightarrow> bool" where
  "truthy JUndefined = False"
| "truthy JNull = False"
| "truthy (JBool b) = b"
| "truthy (JNum n) = (n \<noteq> 0)"
| "truthy (JStr s) = (s \<noteq> [])"
| "truthy (JArr xs) = True"
| "truthy (JObj kvs) = True"

text \<open>A property key that is a canonical array index (\<^verbatim>\<open>"0"\<close>, \<^verbatim>\<open>"17"\<close>, not \<^verbatim>\<open>"01"\<close>).\<close>

definition is_digit :: "char \<Rightarrow> bool" where
  "is_digit c = (48 \<le> (of_char c :: nat) \<and> (of_char c :: nat) \<le> 57)"

definition index_of_key :: "string \<Rightarrow> nat option" where
  "index_of_key k =
     (if k = [] \<or> \<not> list_all is_digit k \<or> (hd k = CHR ''0'' \<and> length k > 1) then None
      else Some (foldl (\<lambda>n c. 10 * n + (of_char c - 48)) 0 k))"

text \<open>
  \<^verbatim>\<open>v[k]\<close>: a \<^verbatim>\<open>TypeError\<close> on \<^verbatim>\<open>undefined\<close> and \<^verbatim>\<open>null\<close>, the own property of an
  object, the length and the elements of an array or a string, and \<^verbatim>\<open>undefined\<close>
  otherwise. Members inherited from the built-in prototypes (functions such as
  \<^verbatim>\<open>toString\<close>) are not values of a plan document and are read as \<^verbatim>\<open>undefined\<close>.
\<close>

fun getProp :: "jsval \<Rightarrow> string \<Rightarrow> error + jsval" where
  "getProp JUndefined k = Inl TypeError"
| "getProp JNull k = Inl TypeError"
| "getProp (JObj kvs) k = Inr (case map_of kvs k of None \<Rightarrow> JUndefined | Some v \<Rightarrow> v)"
| "getProp (JArr xs) k =
     Inr (if k = ''length'' then JNum (int (length xs))
          else (case index_of_key k of
                  None \<Rightarrow> JUndefined
                | Some i \<Rightarrow> (case at_index xs i of None \<Rightarrow> JUndefined | Some v \<Rightarrow> v)))"
| "getProp (JStr s) k =
     Inr (if k = ''length'' then JNum (int (length s))
          else (case index_of_key k of
                  None \<Rightarrow> JUndefined
                | Some i \<Rightarrow> (case at_index s i of None \<Rightarrow> JUndefined | Some c \<Rightarrow> JStr [c])))"
| "getProp (JBool b) k = Inr JUndefined"
| "getProp (JNum n) k = Inr JUndefined"

section \<open>Block classifier\<close>

text \<open>
  \<^verbatim>\<open>checkHclBlockType\<close> (lines 130-155). The result object is a record; \<^verbatim>\<open>isModule\<close>
  is \<^verbatim>\<open>!blockId && moduleName\<close>, of which only the truth value is read. The diagnostic
  \<^verbatim>\<open>console.warn\<close> has no effect on the result.
\<close>

record HclBlock =
  processedBlockId :: string
  isData :: bool
  isVariable :: bool
  isResource :: bool
  isLocal :: bool
  isOutput :: bool
  isProvider :: bool
  isModule :: bool
  isResourceWithName :: bool
  moduleName :: string

definition checkHclBlockType :: "string \<Rightarrow> HclBlock" where
  "checkHclBlockType blockId0 =
     (let isMod = startsWith blockId0 ''module.'';
          moduleName1 = (if isMod
                         then (case at_index (str_split CHR ''.'' blockId0) 1 of
                                 None \<Rightarrow> [] | Some m \<Rightarrow> m)
                         else []);
          blockId = (if isMod then str_join ''.'' (drop 2 (str_split CHR ''.'' blockId0))
                     else blockId0);
          isModule1 = (blockId = [] \<and> moduleName1 \<noteq> []);
          isResource1 = startsWith blockId ''aws_'';
          splitBlockId = str_split CHR ''.'' blockId
      in \<lparr> processedBlockId =
             (if \<not> isResource1 \<and> \<not> isModule1 then str_join ''.'' (drop 1 splitBlockId)
              else blockId),
           isData = startsWith blockId ''data.'',
           isVariable = startsWith blockId ''var.'',
           isResource = isResource1,
           isLocal = startsWith blockId ''local.'',
           isOutput = startsWith blockId ''output.'',
           isProvider = startsWith blockId ''provider['',
           isModule = isModule1,
           isResourceWithName = (isResource1 \<and> length splitBlockId > 1),
           moduleName = moduleName1 \<rparr>)"

text \<open>
  \<^verbatim>\<open>getResourceNameAndType\<close> (lines 157-164). The type is the first dot-segment that
  starts with \<^verbatim>\<open>aws_\<close>; the name is read from the first segment whose predecessor is
  the type, and reading \<^verbatim>\<open>[0].split(" ")\<close> of an empty filter result raises.
\<close>

definition getResourceNameAndType :: "string \<Rightarrow> error + (string option \<times> string option)" where
  "getResourceNameAndType blockId =
     (let parts = str_split CHR ''.'' blockId in
      case filter (\<lambda>s. startsWith s ''aws_'') parts of
        [] \<Rightarrow> Inr (None, None)
      | resourceType # _ \<Rightarrow>
          (case map snd (filter (\<lambda>(p, s). p = resourceType) (zip parts (tl parts))) of
             [] \<Rightarrow> Inl TypeError
           | s # _ \<Rightarrow> Inr (Some resourceType, at_index (str_split CHR '' '' s) 0)))"

text \<open>\<^verbatim>\<open>node.id.split(" ")[1]\<close>, the block reference of a node id.\<close>

definition centralPartOf :: "string \<Rightarrow> string option" where
  "centralPartOf nodeId = at_index (str_split CHR '' '' nodeId) 1"

section \<open>Data model\<close>

text \<open>
  The input graph as the grouping code reads it: of a node only \<^verbatim>\<open>id\<close>, of an edge
  the ids of \<^verbatim>\<open>targets[0]\<close> and \<^verbatim>\<open>targets[1]\<close>; the model is the list
  \<^verbatim>\<open>model.subgraphs\<close>.
\<close>

record NodeModel =
  node_id :: string

record SubgraphModel =
  sg_nodes :: "NodeModel list"
  sg_edges :: "(string \<times> string) list"

type_synonym RootGraphModel = "SubgraphModel list"

text \<open>
  A change record of the plan, \<^verbatim>\<open>{address, change: {actions, after}}\<close>; an absent
  \<^verbatim>\<open>after\<close> is \<open>JUndefined\<close>. The plan object is its \<^verbatim>\<open>resource_changes\<close> list.
\<close>

record ResourceChange =
  address :: string
  actions :: "string list"
  after :: jsval

text \<open>
  A row of the mapping table (\<^verbatim>\<open>terraformResourcesCsv\<close>, parsed with a header): the
  table itself is not part of the sources and is a parameter of every operation.
\<close>

record MappingRow =
  mainDiagramBlocks :: string
  missingResources :: string
  dataSources :: string
  serviceNameCol :: string
  iconPathCol :: string
  simplifiedCategory :: string
  argumentsForName :: string

record GroupMember =
  nodeModel :: NodeModel
  resourceChanges :: "ResourceChange list"

text \<open>
  \<^verbatim>\<open>NodeGroup\<close> (lines 21-37). The fields \<^verbatim>\<open>id\<close>, \<^verbatim>\<open>name\<close>, \<^verbatim>\<open>type\<close> and
  \<^verbatim>\<open>moduleName\<close> are \<open>gid\<close>, \<open>gname\<close>, \<open>gtype\<close> and \<open>gmoduleName\<close>. The name is
  whatever value the plan holds, the state whatever tag the actions join to.
\<close>

record NodeGroup =
  nodes :: "GroupMember list"
  gid :: string
  mainNode :: NodeModel
  connectionsOut :: "string list"
  connectionsIn :: "string list"
  gname :: jsval
  gtype :: string
  category :: string
  iconPath :: string
  serviceName :: string
  gmoduleName :: string
  state :: string

text \<open>
  \<^verbatim>\<open>Map<string, NodeGroup>\<close> in insertion order: \<^verbatim>\<open>set\<close> on a present key replaces
  the value in place (\<open>AList.update\<close>), \<^verbatim>\<open>delete\<close> is \<open>AList.delete\<close>.
\<close>

type_synonym NodeGroups = "(string \<times> NodeGroup) list"

section \<open>Plan diff resolver\<close>

text \<open>The change records of an address: equal to it, or indexed instances of it.\<close>

definition changesOf :: "ResourceChange list \<Rightarrow> string \<Rightarrow> ResourceChange list" where
  "changesOf resource_changes addr =
     filter (\<lambda>resource. address resource = addr \<or> startsWith (address resource) (addr @ ''['')) resource_changes"

definition lowState :: "string \<Rightarrow> bool" where
  "lowState s = (s \<in> set [''no-op'', ''read''])"

text \<open>One step of the fold of \<^verbatim>\<open>addNodeToGroup\<close> (lines 181-188).\<close>

definition stepState_addNodeToGroup :: "string \<Rightarrow> string \<Rightarrow> string" where
  "stepState_addNodeToGroup generalState newState =
     (if newState \<noteq> generalState
      then (if lowState newState \<and> lowState generalState then ''read''
            else if lowState generalState then newState else ''update'')
      else newState)"

definition generalState_addNodeToGroup :: "ResourceChange list \<Rightarrow> string" where
  "generalState_addNodeToGroup rcs =
     foldl stepState_addNodeToGroup ''no-op'' (map (\<lambda>rc. str_join ''-'' (actions rc)) rcs)"

text \<open>One step of the fold of \<^verbatim>\<open>getConnectedNodes\<close> (lines 534-540).\<close>

definition stepState_getConnectedNodes :: "string \<Rightarrow> string \<Rightarrow> string" where
  "stepState_getConnectedNodes generalState newState =
     (if newState \<noteq> generalState
      then (if lowState newState \<and> lowState generalState then ''read'' else ''update'')
      else newState)"

definition generalState_getConnectedNodes :: "ResourceChange list \<Rightarrow> string" where
  "generalState_getConnectedNodes rcs =
     foldl stepState_getConnectedNodes ''no-op'' (map (\<lambda>rc. str_join ''-'' (actions rc)) rcs)"

section \<open>Seeding: \<^verbatim>\<open>addNodeToGroup\<close>\<close>

text \<open>The row test of line 191 and the name attribute of lines 192-194.\<close>

definition rowMatches :: "bool \<Rightarrow> MappingRow \<Rightarrow> string \<Rightarrow> bool" where
  "rowMatches mainBlock row resourceType =
     (resourceType \<in> set (str_split CHR '','' (if mainBlock then mainDiagramBlocks row
                                                 else missingResources row)))"

definition nameAttributeOf :: "bool \<Rightarrow> MappingRow \<Rightarrow> string \<Rightarrow> string" where
  "nameAttributeOf mainBlock row resourceType =
     (let resourceIndex = (if mainBlock
                           then indexOf (str_split CHR '','' (mainDiagramBlocks row)) resourceType
                           else None);
          attributesArray = str_split CHR '','' (argumentsForName row)
      in case resourceIndex of
           None \<Rightarrow> ''name''
         | Some i \<Rightarrow>
            (case at_index attributesArray i of
               None \<Rightarrow> ''name''
             | Some a \<Rightarrow> if a \<noteq> [] \<and> a \<noteq> ''-'' then a else ''name''))"

text \<open>
  The display name of lines 196-206. With no change record the name is the resource
  name. Otherwise \<^verbatim>\<open>after && (after[nameAttribute] || after["name"])\<close> is tried first;
  when that is falsy and the attribute has two dot-segments, the nested read
  \<^verbatim>\<open>after[seg0][seg1]\<close> is made with no guard, else the resource name is taken.
\<close>

definition resolveName :: "ResourceChange list \<Rightarrow> string \<Rightarrow> string \<Rightarrow> error + jsval" where
  "resolveName rcs nameAttribute resourceName =
     (case rcs of
        [] \<Rightarrow> Inr (JStr resourceName)
      | rc # _ \<Rightarrow>
         (case (if truthy (after rc)
                then (case getProp (after rc) nameAttribute of
                        Inl e \<Rightarrow> Inl e
                      | Inr v \<Rightarrow> if truthy v then Inr v else getProp (after rc) ''name'')
                else Inr (after rc)) of
            Inl e \<Rightarrow> Inl e
          | Inr name1 \<Rightarrow>
             if truthy name1 then Inr name1
             else (case str_split CHR ''.'' nameAttribute of
                     [seg0, seg1] \<Rightarrow>
                       (case getProp (after rc) seg0 of
                          Inl e \<Rightarrow> Inl e
                        | Inr inner \<Rightarrow> getProp inner seg1)
                   | _ \<Rightarrow> Inr (JStr resourceName))))"

text \<open>The group object of lines 208-224.\<close>

definition newGroup ::
  "NodeModel \<Rightarrow> string \<Rightarrow> MappingRow \<Rightarrow> jsval \<Rightarrow> ResourceChange list \<Rightarrow> string \<Rightarrow> string \<Rightarrow> string
   \<Rightarrow> NodeGroup" where
  "newGroup node key row name1 rcs generalState resourceType moduleName1 =
     \<lparr> nodes = [\<lparr> nodeModel = node, resourceChanges = rcs \<rparr>],
       gid = key,
       mainNode = node,
       connectionsOut = [],
       connectionsIn = [],
       gname = name1,
       gtype = resourceType,
       category = simplifiedCategory row,
       iconPath = trim (iconPathCol row),
       serviceName = serviceNameCol row,
       gmoduleName = moduleName1,
       state = (if length rcs > 0 then generalState else ''no-op'') \<rparr>"

text \<open>
  \<^verbatim>\<open>jsonArray.data.forEach\<close> (lines 190-226): every matching row stores a group under
  the same key, so a later matching row replaces what an earlier one stored.
\<close>

fun addNodeToGroup_rows ::
  "MappingRow list \<Rightarrow> bool \<Rightarrow> NodeModel \<Rightarrow> string \<Rightarrow> ResourceChange list \<Rightarrow> string \<Rightarrow> string
   \<Rightarrow> string \<Rightarrow> NodeGroups \<Rightarrow> error + NodeGroups" where
  "addNodeToGroup_rows [] mainBlock node key rcs resourceType resourceName moduleName1 nodeGroups =
     Inr nodeGroups"
| "addNodeToGroup_rows (row # rows) mainBlock node key rcs resourceType resourceName moduleName1
       nodeGroups =
     (if rowMatches mainBlock row resourceType then
        (case resolveName rcs (nameAttributeOf mainBlock row resourceType) resourceName of
           Inl e \<Rightarrow> Inl e
         | Inr name1 \<Rightarrow>
             addNodeToGroup_rows rows mainBlock node key rcs resourceType resourceName moduleName1
               (AList.update key
                  (newGroup node key row name1 rcs (generalState_addNodeToGroup rcs)
                     resourceType moduleName1)
                  nodeGroups))
      else addNodeToGroup_rows rows mainBlock node key rcs resourceType resourceName moduleName1
             nodeGroups)"

text \<open>
  \<^verbatim>\<open>addNodeToGroup\<close> (lines 166-232). \<^verbatim>\<open>planJsonObj\<close> is \<open>None\<close> when no plan was
  given; reading \<^verbatim>\<open>resource_changes\<close> of it then raises.
\<close>

definition addNodeToGroup ::
  "NodeModel \<Rightarrow> NodeGroups \<Rightarrow> bool \<Rightarrow> MappingRow list \<Rightarrow> ResourceChange list option \<Rightarrow> bool
   \<Rightarrow> error + NodeGroups" where
  "addNodeToGroup node nodeGroups mainBlock jsonArray planJsonObj computeTerraformPlan =
     (case centralPartOf (node_id node) of
        None \<Rightarrow> Inr nodeGroups
      | Some centralPart \<Rightarrow>
         if centralPart = [] then Inr nodeGroups
         else
           let b = checkHclBlockType centralPart in
           if \<not> isResourceWithName b then Inr nodeGroups
           else
             (case getResourceNameAndType (processedBlockId b) of
                Inl e \<Rightarrow> Inl e
              | Inr (Some resourceType, Some resourceName) \<Rightarrow>
                 if resourceType = [] \<or> resourceName = [] then Inr nodeGroups
                 else
                   (case (if computeTerraformPlan
                          then (case planJsonObj of
                                  None \<Rightarrow> Inl TypeError
                                | Some resource_changes \<Rightarrow>
                                    Inr (changesOf resource_changes centralPart))
                          else Inr []) of
                      Inl e \<Rightarrow> Inl e
                    | Inr rcs \<Rightarrow>
                        addNodeToGroup_rows jsonArray mainBlock node centralPart rcs
                          resourceType resourceName (moduleName b) nodeGroups)
              | Inr _ \<Rightarrow> Inr nodeGroups))"

section \<open>Expansion: \<^verbatim>\<open>getConnectedNodes\<close>\<close>

text \<open>
  \<^verbatim>\<open>isNodePresent\<close> (lines 513-517): some group of the map holds a member with this
  node id.
\<close>

definition isNodePresent :: "NodeGroup list \<Rightarrow> string \<Rightarrow> bool" where
  "isNodePresent groups nodeId =
     list_ex (\<lambda>group. list_ex (\<lambda>n. node_id (nodeModel n) = nodeId) (nodes group)) groups"

text \<open>The table test of lines 519-523, against the type of the absorbing group.\<close>

definition rowAbsorbs :: "MappingRow list \<Rightarrow> string \<Rightarrow> string \<Rightarrow> bool" where
  "rowAbsorbs jsonArray groupType resourceType =
     list_ex (\<lambda>row. groupType \<in> set (str_split CHR '','' (mainDiagramBlocks row)) \<and>
                    (resourceType \<in> set (str_split CHR '','' (missingResources row)) \<or>
                     resourceType \<in> set (str_split CHR '','' (dataSources row)))) jsonArray"

text \<open>
  Lines 527-548: the change records of the new node, its general state, the push onto
  \<^verbatim>\<open>nodeGroup.nodes\<close> and the update of \<^verbatim>\<open>nodeGroup.state\<close>. The address is the
  block reference of the new node's id.
\<close>

definition absorbNode ::
  "NodeModel \<Rightarrow> string \<Rightarrow> NodeGroup \<Rightarrow> ResourceChange list option \<Rightarrow> NodeGroup" where
  "absorbNode newNode addr nodeGroup planJsonObj =
     (let rcs = (case planJsonObj of
                   None \<Rightarrow> []
                 | Some resource_changes \<Rightarrow> changesOf resource_changes addr);
          generalState = generalState_getConnectedNodes rcs
      in nodeGroup
           \<lparr> nodes := nodes nodeGroup @ [\<lparr> nodeModel = newNode, resourceChanges = rcs \<rparr>],
             state := (if state nodeGroup \<noteq> ''no-op'' \<or> planJsonObj = None then state nodeGroup
                       else if generalState \<noteq> ''no-op'' then ''update'' else generalState) \<rparr>)"

text \<open>
  The body of the \<^verbatim>\<open>forEach\<close> callback up to the recursive calls (lines 506-548), for
  one edge: an error, no absorption, or the absorbed node with the updated group.
  \<open>others\<close> are the other groups of the map, which the call reads and never changes.
\<close>

definition absorbCandidate ::
  "NodeGroup \<Rightarrow> NodeGroup list \<Rightarrow> SubgraphModel \<Rightarrow> bool \<Rightarrow> MappingRow list
   \<Rightarrow> ResourceChange list option \<Rightarrow> string \<times> string \<Rightarrow> error + (NodeModel \<times> NodeGroup) option" where
  "absorbCandidate nodeGroup others subgraph start jsonArray planJsonObj edge =
     (let edgeToId = (if start then snd edge else fst edge) in
      case centralPartOf edgeToId of
        None \<Rightarrow> Inr None
      | Some centralPart \<Rightarrow>
         if centralPart = [] then Inr None
         else
           let b = checkHclBlockType centralPart in
           if \<not> (isResourceWithName b \<or> isData b) then Inr None
           else
             (case getResourceNameAndType (processedBlockId b) of
                Inl e \<Rightarrow> Inl e
              | Inr (Some resourceType, Some resourceName) \<Rightarrow>
                 if resourceType \<noteq> [] \<and> resourceName \<noteq> [] \<and>
                    \<not> isNodePresent (nodeGroup # others) edgeToId \<and>
                    rowAbsorbs jsonArray (gtype nodeGroup) resourceType
                 then (case find (\<lambda>n. node_id n = edgeToId) (sg_nodes subgraph) of
                         None \<Rightarrow> Inr None
                       | Some newNode \<Rightarrow>
                           Inr (Some (newNode, absorbNode newNode centralPart nodeGroup planJsonObj)))
                 else Inr None
              | Inr _ \<Rightarrow> Inr None))"

text \<open>
  \<^verbatim>\<open>getConnectedNodes\<close> (lines 501-557) and its \<^verbatim>\<open>forEach\<close> over the filtered edges.
  The fuel bounds the depth of nested calls; \<open>None\<close> is fuel exhausted.
\<close>

function getConnectedNodes ::
  "nat \<Rightarrow> NodeModel \<Rightarrow> NodeGroup \<Rightarrow> NodeGroup list \<Rightarrow> SubgraphModel \<Rightarrow> bool \<Rightarrow> MappingRow list
   \<Rightarrow> ResourceChange list option \<Rightarrow> (error + NodeGroup) option"
and getConnectedNodes_edges ::
  "nat \<Rightarrow> (string \<times> string) list \<Rightarrow> NodeGroup \<Rightarrow> NodeGroup list \<Rightarrow> SubgraphModel \<Rightarrow> bool
   \<Rightarrow> MappingRow list \<Rightarrow> ResourceChange list option \<Rightarrow> (error + NodeGroup) option"
where
  "getConnectedNodes 0 node nodeGroup others subgraph start jsonArray planJsonObj = None"
| "getConnectedNodes (Suc fuel) node nodeGroup others subgraph start jsonArray planJsonObj =
     getConnectedNodes_edges fuel
       (filter (\<lambda>e. (if start then fst e else snd e) = node_id node) (sg_edges subgraph))
       nodeGroup others subgraph start jsonArray planJsonObj"
| "getConnectedNodes_edges fuel [] nodeGroup others subgraph start jsonArray planJsonObj =
     Some (Inr nodeGroup)"
| "getConnectedNodes_edges fuel (edge # rest) nodeGroup others subgraph start jsonArray planJsonObj =
     (case absorbCandidate nodeGroup others subgraph start jsonArray planJsonObj edge of
        Inl e \<Rightarrow> Some (Inl e)
      | Inr None \<Rightarrow>
          getConnectedNodes_edges fuel rest nodeGroup others subgraph start jsonArray planJsonObj
      | Inr (Some (newNode, g1)) \<Rightarrow>
          (case getConnectedNodes fuel newNode g1 others subgraph start jsonArray planJsonObj of
             None \<Rightarrow> None
           | Some (Inl e) \<Rightarrow> Some (Inl e)
           | Some (Inr g2) \<Rightarrow>
              (case getConnectedNodes fuel newNode g2 others subgraph (\<not> start) jsonArray
                      planJsonObj of
                 None \<Rightarrow> None
               | Some (Inl e) \<Rightarrow> Some (Inl e)
               | Some (Inr g3) \<Rightarrow>
                   getConnectedNodes_edges fuel rest g3 others subgraph start jsonArray
                     planJsonObj)))"
  by pat_completeness auto
termination
  by (relation "measures [\<lambda>x. case x of
                              Inl (fuel, _) \<Rightarrow> 2 * fuel
                            | Inr (fuel, _) \<Rightarrow> 2 * fuel + 1,
                            \<lambda>x. case x of
                              Inl _ \<Rightarrow> 0
                            | Inr (_, es, _) \<Rightarrow> length es]") auto

section \<open>The pass: \<^verbatim>\<open>parseModel\<close>\<close>

text \<open>Seeding (lines 279-283), over the nodes of every subgraph in order.\<close>

fun parseModel_seed ::
  "NodeModel list \<Rightarrow> NodeGroups \<Rightarrow> MappingRow list \<Rightarrow> ResourceChange list option \<Rightarrow> bool
   \<Rightarrow> error + NodeGroups" where
  "parseModel_seed [] nodeGroups jsonArray planJsonObj computeTerraformPlan = Inr nodeGroups"
| "parseModel_seed (node # rest) nodeGroups jsonArray planJsonObj computeTerraformPlan =
     (case addNodeToGroup node nodeGroups True jsonArray planJsonObj computeTerraformPlan of
        Inl e \<Rightarrow> Inl e
      | Inr nodeGroups' \<Rightarrow>
          parseModel_seed rest nodeGroups' jsonArray planJsonObj computeTerraformPlan)"

text \<open>
  Expansion (lines 285-288): \<^verbatim>\<open>nodeGroups.forEach\<close> in insertion order, each group
  expanded from its main node along outgoing and then incoming edges of
  \<^verbatim>\<open>model.subgraphs[0]\<close>; with no subgraph the first call reads \<^verbatim>\<open>undefined.edges\<close>.
  \<open>visited\<close> are the entries already expanded.
\<close>

fun parseModel_expand ::
  "nat \<Rightarrow> NodeGroups \<Rightarrow> NodeGroups \<Rightarrow> RootGraphModel \<Rightarrow> MappingRow list
   \<Rightarrow> ResourceChange list option \<Rightarrow> (error + NodeGroups) option" where
  "parseModel_expand fuel visited [] model jsonArray planJsonObj = Some (Inr visited)"
| "parseModel_expand fuel visited ((key, nodeGroup) # todo) model jsonArray planJsonObj =
     (case model of
        [] \<Rightarrow> Some (Inl TypeError)
      | subgraph # _ \<Rightarrow>
         (case getConnectedNodes fuel (mainNode nodeGroup) nodeGroup (map snd (visited @ todo))
                 subgraph True jsonArray planJsonObj of
            None \<Rightarrow> None
          | Some (Inl e) \<Rightarrow> Some (Inl e)
          | Some (Inr g1) \<Rightarrow>
             (case getConnectedNodes fuel (mainNode g1) g1 (map snd (visited @ todo))
                     subgraph False jsonArray planJsonObj of
                None \<Rightarrow> None
              | Some (Inl e) \<Rightarrow> Some (Inl e)
              | Some (Inr g2) \<Rightarrow>
                  parseModel_expand fuel (visited @ [(key, g2)]) todo model jsonArray
                    planJsonObj)))"

text \<open>
  Grouping without the detailed mode: seeding, then expansion. \<open>planJsonObj\<close> is \<open>None\<close>
  when no plan was given, and \<^verbatim>\<open>computeTerraformPlan\<close> says whether one was.
\<close>

definition parseModel_grouping ::
  "nat \<Rightarrow> RootGraphModel \<Rightarrow> ResourceChange list option \<Rightarrow> MappingRow list
   \<Rightarrow> (error + NodeGroups) option" where
  "parseModel_grouping fuel model planJsonObj jsonArray =
     (case parseModel_seed (concat (map sg_nodes model)) [] jsonArray planJsonObj
             (planJsonObj \<noteq> None) of
        Inl e \<Rightarrow> Some (Inl e)
      | Inr nodeGroups \<Rightarrow> parseModel_expand fuel [] nodeGroups model jsonArray planJsonObj)"

text \<open>
  Plan-based pruning (lines 304-318). The first loop goes over the keys the map had when
  the sweep started and deletes a group whose first member has no change record; reading
  \<^verbatim>\<open>nodes[0].resourceChanges\<close> of a group with no member would raise. The second loop
  keeps, in every remaining group, the members with at least one change record.
  \<open>storedShowInactive\<close> is \<^verbatim>\<open>storedData?.showInactive\<close>.
\<close>

fun prune_groups :: "string list \<Rightarrow> NodeGroups \<Rightarrow> error + NodeGroups" where
  "prune_groups [] nodeGroups = Inr nodeGroups"
| "prune_groups (key # keys) nodeGroups =
     (case map_of nodeGroups key of
        None \<Rightarrow> prune_groups keys nodeGroups
      | Some nodeGroup \<Rightarrow>
         (case nodes nodeGroup of
            [] \<Rightarrow> Inl TypeError
          | first # _ \<Rightarrow>
              if length (resourceChanges first) = 0
              then prune_groups keys (AList.delete key nodeGroups)
              else prune_groups keys nodeGroups))"

definition prune_members :: "NodeGroups \<Rightarrow> NodeGroups" where
  "prune_members nodeGroups =
     map (\<lambda>(key, nodeGroup).
            (key, nodeGroup \<lparr> nodes := filter (\<lambda>node. length (resourceChanges node) > 0)
                                         (nodes nodeGroup) \<rparr>)) nodeGroups"

definition parseModel_prune :: "bool \<Rightarrow> bool \<Rightarrow> bool \<Rightarrow> NodeGroups \<Rightarrow> error + NodeGroups" where
  "parseModel_prune storedShowInactive showInactive computeTerraformPlan nodeGroups =
     (if (\<not> storedShowInactive \<and> \<not> showInactive) \<and> computeTerraformPlan
      then (case prune_groups (map fst nodeGroups) nodeGroups of
              Inl e \<Rightarrow> Inl e
            | Inr kept \<Rightarrow> Inr (prune_members kept))
      else Inr nodeGroups)"

text \<open>
  Connections between groups (lines 350-372). The owner of a node id is the first entry
  of the map with such a member. \<^verbatim>\<open>fromGroup\<close> and \<^verbatim>\<open>toGroup\<close> are \<^verbatim>\<open>[key, group]\<close>
  arrays taken from two separate \<^verbatim>\<open>Array.from(nodeGroups)\<close> calls, each of which
  builds new arrays: the guard \<^verbatim>\<open>fromGroup !== toGroup\<close> of line 364 compares the
  identities of two distinct objects and holds whatever the entries contain. The two
  pushes change the group objects of the map, found here by their keys.
\<close>

definition entriesDiffer :: "string \<times> NodeGroup \<Rightarrow> string \<times> NodeGroup \<Rightarrow> bool" where
  "entriesDiffer fromGroup toGroup = True"

definition ownerEntry :: "NodeGroups \<Rightarrow> string \<Rightarrow> (string \<times> NodeGroup) option" where
  "ownerEntry nodeGroups nodeId =
     (case filter (\<lambda>(key, group). list_ex (\<lambda>n. node_id (nodeModel n) = nodeId) (nodes group))
             nodeGroups of
        [] \<Rightarrow> None
      | entry # _ \<Rightarrow> Some entry)"

definition modifyGroup :: "string \<Rightarrow> (NodeGroup \<Rightarrow> NodeGroup) \<Rightarrow> NodeGroups \<Rightarrow> NodeGroups" where
  "modifyGroup key f nodeGroups =
     map (\<lambda>(k, group). if k = key then (k, f group) else (k, group)) nodeGroups"

definition connectEdge :: "NodeGroups \<Rightarrow> string \<times> string \<Rightarrow> NodeGroups" where
  "connectEdge nodeGroups edge =
     (case ownerEntry nodeGroups (fst edge) of
        None \<Rightarrow> nodeGroups
      | Some fromGroup \<Rightarrow>
         (case ownerEntry nodeGroups (snd edge) of
            None \<Rightarrow> nodeGroups
          | Some toGroup \<Rightarrow>
              if entriesDiffer fromGroup toGroup then
                (let fromGroupKey = fst fromGroup; toGroupKey = fst toGroup in
                 if toGroupKey \<notin> set (connectionsOut (snd fromGroup)) \<and>
                    fromGroupKey \<notin> set (connectionsIn (snd toGroup))
                 then modifyGroup toGroupKey
                        (\<lambda>group. group \<lparr> connectionsIn := connectionsIn group @ [fromGroupKey] \<rparr>)
                        (modifyGroup fromGroupKey
                           (\<lambda>group. group \<lparr> connectionsOut := connectionsOut group @ [toGroupKey] \<rparr>)
                           nodeGroups)
                 else nodeGroups)
              else nodeGroups))"

definition parseModel_connections :: "NodeGroups \<Rightarrow> RootGraphModel \<Rightarrow> error + NodeGroups" where
  "parseModel_connections nodeGroups model =
     (case model of
        [] \<Rightarrow> Inl TypeError
      | subgraph # _ \<Rightarrow> Inr (foldl connectEdge nodeGroups (sg_edges subgraph)))"

section \<open>Membership, claims and eligibility\<close>

text \<open>The node ids a group holds, and the ids claimed by a list of groups.\<close>

definition memberIds :: "NodeGroup \<Rightarrow> string list" where
  "memberIds g = map (\<lambda>n. node_id (nodeModel n)) (nodes g)"

definition claimedIds :: "NodeGroup list \<Rightarrow> string list" where
  "claimedIds gs = concat (map memberIds gs)"

text \<open>
  A node id whose block reference is classified as a resource with type and name, or as
  a data block: the test of line 511.
\<close>

definition eligible :: "string \<Rightarrow> bool" where
  "eligible nodeId =
     (case centralPartOf nodeId of
        None \<Rightarrow> False
      | Some centralPart \<Rightarrow>
          isResourceWithName (checkHclBlockType centralPart) \<or>
          isData (checkHclBlockType centralPart))"

text \<open>A node id whose block reference is classified as a resource.\<close>

definition resourceClassified :: "string \<Rightarrow> bool" where
  "resourceClassified nodeId =
     (case centralPartOf nodeId of
        None \<Rightarrow> False
      | Some centralPart \<Rightarrow> isResource (checkHclBlockType centralPart))"

text \<open>
  \<open>g'\<close> is \<open>g\<close> after absorbing further nodes: new members at the end, none claimed
  before, each eligible and a node of the subgraph; only the state may differ besides.
\<close>

definition absorbed :: "NodeGroup list \<Rightarrow> SubgraphModel \<Rightarrow> NodeGroup \<Rightarrow> NodeGroup \<Rightarrow> bool" where
  "absorbed others subgraph g g' =
     (\<exists>extra. g' = g \<lparr> nodes := nodes g @ extra, state := state g' \<rparr> \<and>
        distinct (map (\<lambda>n. node_id (nodeModel n)) extra) \<and>
        (\<forall>n \<in> set extra.
            node_id (nodeModel n) \<notin> set (claimedIds (g # others)) \<and>
            eligible (node_id (nodeModel n)) \<and>
            nodeModel n \<in> set (sg_nodes subgraph)))"

text \<open>The node ids of the subgraph that no group holds yet.\<close>

definition unclaimed :: "SubgraphModel \<Rightarrow> NodeGroup list \<Rightarrow> string set" where
  "unclaimed subgraph gs = node_id ` set (sg_nodes subgraph) - set (claimedIds gs)"

text \<open>The number of nodes of \<^verbatim>\<open>model.subgraphs[0]\<close>, the graph the expansion walks.\<close>

definition graphSize :: "RootGraphModel \<Rightarrow> nat" where
  "graphSize model = (case model of [] \<Rightarrow> 0 | subgraph # _ \<Rightarrow> length (sg_nodes subgraph))"

text \<open>
  What seeding establishes: distinct keys, and under every key a group whose only member
  is its main node, a resource with type and name whose block reference is the key.
\<close>

definition seeded :: "NodeGroups \<Rightarrow> bool" where
  "seeded gs =
     (distinct (map fst gs) \<and>
      (\<forall>(k, g) \<in> set gs.
          (\<exists>rcs. nodes g = [\<lparr> nodeModel = mainNode g, resourceChanges = rcs \<rparr>]) \<and>
          centralPartOf (node_id (mainNode g)) = Some k \<and>
          isResourceWithName (checkHclBlockType k)))"

text \<open>
  What grouping establishes: distinct keys, no node id held twice, every member eligible,
  and the main node of every group as its first member.
\<close>

definition wellGrouped :: "NodeGroups \<Rightarrow> bool" where
  "wellGrouped gs =
     (distinct (map fst gs) \<and>
      distinct (claimedIds (map snd gs)) \<and>
      (\<forall>(k, g) \<in> set gs.
          (\<forall>i \<in> set (memberIds g). eligible i) \<and>
          (\<exists>m ms. nodes g = m # ms \<and> nodeModel m = mainNode g)))"

text \<open>
  The change records stored with the first member of a group, which is its main node in
  every well grouped map.
\<close>

definition mainNodeChanges :: "NodeGroup \<Rightarrow> ResourceChange list" where
  "mainNodeChanges g = (case nodes g of [] \<Rightarrow> [] | first # _ \<Rightarrow> resourceChanges first)"

text \<open>Distinct keys, and no key twice in the connections of a group.\<close>

definition connectionsDistinct :: "NodeGroups \<Rightarrow> bool" where
  "connectionsDistinct gs =
     (distinct (map fst gs) \<and>
      (\<forall>(k, g) \<in> set gs. distinct (connectionsOut g) \<and> distinct (connectionsIn g)))"

section \<open>Example inputs\<close>

text \<open>
  A mapping row, a second row that lists the same main type, and three small graphs: an
  instance with its security group, the same with a data source and a cycle of edges,
  and an instance with a data block that has no name segment.
\<close>

definition example_row :: MappingRow where
  "example_row =
     \<lparr> mainDiagramBlocks = ''aws_instance,aws_subnet'',
       missingResources = ''aws_security_group'',
       dataSources = ''aws_ami,aws_region'',
       serviceNameCol = ''EC2'',
       iconPathCol = '' ec2.png'',
       simplifiedCategory = ''Compute'',
       argumentsForName = ''tags.Name,-'' \<rparr>"

definition example_row2 :: MappingRow where
  "example_row2 =
     \<lparr> mainDiagramBlocks = ''aws_s3_bucket,aws_instance'',
       missingResources = [],
       dataSources = [],
       serviceNameCol = ''S3'',
       iconPathCol = ''s3.png'',
       simplifiedCategory = ''Storage'',
       argumentsForName = ''bucket,-'' \<rparr>"

definition example_graph :: RootGraphModel where
  "example_graph =
     [\<lparr> sg_nodes = [\<lparr> node_id = ''n1 aws_instance.web'' \<rparr>,
                   \<lparr> node_id = ''n2 aws_security_group.sg'' \<rparr>],
        sg_edges = [(''n1 aws_instance.web'', ''n2 aws_security_group.sg'')] \<rparr>]"

definition example_cycle :: RootGraphModel where
  "example_cycle =
     [\<lparr> sg_nodes = [\<lparr> node_id = ''n1 aws_instance.web'' \<rparr>,
                   \<lparr> node_id = ''n2 aws_security_group.sg'' \<rparr>,
                   \<lparr> node_id = ''n3 data.aws_ami.u'' \<rparr>],
        sg_edges = [(''n1 aws_instance.web'', ''n2 aws_security_group.sg''),
                    (''n2 aws_security_group.sg'', ''n3 data.aws_ami.u''),
                    (''n3 data.aws_ami.u'', ''n1 aws_instance.web'')] \<rparr>]"

definition example_bare_data :: RootGraphModel where
  "example_bare_data =
     [\<lparr> sg_nodes = [\<lparr> node_id = ''n1 aws_instance.web'' \<rparr>,
                   \<lparr> node_id = ''n2 data.aws_region'' \<rparr>],
        sg_edges = [(''n1 aws_instance.web'', ''n2 data.aws_region'')] \<rparr>]"

definition example_plan :: "ResourceChange list" where
  "example_plan =
     [\<lparr> address = ''aws_instance.web'', actions = [''create''],
        after = JObj [(''tags'', JObj [(''Name'', JStr ''web-1'')])] \<rparr>]"

text \<open>The group of the instance in the example graphs, with its members, name and state.\<close>

definition example_group :: "GroupMember list \<Rightarrow> jsval \<Rightarrow> string \<Rightarrow> NodeGroup" where
  "example_group members name1 st =
     \<lparr> nodes = members,
       gid = ''aws_instance.web'',
       mainNode = \<lparr> node_id = ''n1 aws_instance.web'' \<rparr>,
       connectionsOut = [],
       connectionsIn = [],
       gname = name1,
       gtype = ''aws_instance'',
       category = ''Compute'',
       iconPath = ''ec2.png'',
       serviceName = ''EC2'',
       gmoduleName = [],
       state = st \<rparr>"

definition example_member :: "string \<Rightarrow> ResourceChange list \<Rightarrow> GroupMember" where
  "example_member nodeId rcs = \<lparr> nodeModel = \<lparr> node_id = nodeId \<rparr>, resourceChanges = rcs \<rparr>"

section \<open>Properties of seeding\<close>

text \<open>
  The row loop leaves the map as it is when no row matches, and otherwise stores the
  group built from the last matching row.
\<close>

lemma addNodeToGroup_rows_none:
  "filter (\<lambda>row. rowMatches mainBlock row rt) rows = [] \<Longrightarrow>
   addNodeToGroup_rows rows mainBlock node key rcs rt rn mn nodeGroups = Inr nodeGroups"
  by (induction rows arbitrary: nodeGroups) (auto split: if_splits)

lemma addNodeToGroup_rows_last:
  assumes "addNodeToGroup_rows rows mainBlock node key rcs rt rn mn nodeGroups = Inr nodeGroups'"
    and "filter (\<lambda>row. rowMatches mainBlock row rt) rows \<noteq> []"
  shows "\<exists>name1.
     resolveName rcs (nameAttributeOf mainBlock (last (filter (\<lambda>row. rowMatches mainBlock row rt) rows)) rt) rn
       = Inr name1 \<and>
     nodeGroups' = AList.update key
        (newGroup node key (last (filter (\<lambda>row. rowMatches mainBlock row rt) rows)) name1 rcs
           (generalState_addNodeToGroup rcs) rt mn) nodeGroups"
  using assms
proof (induction rows arbitrary: nodeGroups)
  case Nil
  then show ?case by simp
next
  case (Cons row rows)
  let ?m = "filter (\<lambda>row. rowMatches mainBlock row rt) rows"
  show ?case
  proof (cases "rowMatches mainBlock row rt")
    case False
    with Cons show ?thesis by simp
  next
    case True
    from Cons.prems(1) True obtain name0 where
      n0: "resolveName rcs (nameAttributeOf mainBlock row rt) rn = Inr name0"
      and rest: "addNodeToGroup_rows rows mainBlock node key rcs rt rn mn
          (AList.update key (newGroup node key row name0 rcs (generalState_addNodeToGroup rcs) rt mn) nodeGroups)
           = Inr nodeGroups'"
      by (auto split: sum.splits)
    show ?thesis
    proof (cases "?m = []")
      case True
      with rest have "nodeGroups' = AList.update key (newGroup node key row name0 rcs (generalState_addNodeToGroup rcs) rt mn) nodeGroups"
        by (simp add: addNodeToGroup_rows_none)
      with n0 True \<open>rowMatches mainBlock row rt\<close> show ?thesis by simp
    next
      case False
      from Cons.IH[OF rest False] obtain name1 where
        "resolveName rcs (nameAttributeOf mainBlock (last ?m) rt) rn = Inr name1"
        "nodeGroups' = AList.update key (newGroup node key (last ?m) name1 rcs (generalState_addNodeToGroup rcs) rt mn)
           (AList.update key (newGroup node key row name0 rcs (generalState_addNodeToGroup rcs) rt mn) nodeGroups)"
        by blast
      with False \<open>rowMatches mainBlock row rt\<close> show ?thesis by simp
    qed
  qed
qed


subsection \<open>Module attachment\<close>

lemma classify_module_subnet:
  "checkHclBlockType ''module.vpc.aws_subnet.this'' =
     \<lparr> processedBlockId = ''aws_subnet.this'', isData = False, isVariable = False,
       isResource = True, isLocal = False, isOutput = False, isProvider = False,
       isModule = False, isResourceWithName = True, moduleName = ''vpc'' \<rparr>"
  by code_simp

lemma central_module_subnet:
  "centralPartOf ''n1 module.vpc.aws_subnet.this'' = Some ''module.vpc.aws_subnet.this''"
  by code_simp

lemma name_type_subnet:
  "getResourceNameAndType ''aws_subnet.this'' = Inr (Some ''aws_subnet'', Some ''this'')"
  by code_simp

lemma addNodeToGroup_module_subnet:
  assumes "addNodeToGroup \<lparr> node_id = ''n1 module.vpc.aws_subnet.this'' \<rparr> nodeGroups True jsonArray
             planJsonObj computeTerraformPlan = Inr nodeGroups'"
  shows "\<exists>rcs. addNodeToGroup_rows jsonArray True \<lparr> node_id = ''n1 module.vpc.aws_subnet.this'' \<rparr>
            ''module.vpc.aws_subnet.this'' rcs ''aws_subnet'' ''this'' ''vpc'' nodeGroups = Inr nodeGroups'"
  using assms
  unfolding addNodeToGroup_def
  by (auto simp add: central_module_subnet classify_module_subnet name_type_subnet
        split: if_splits option.splits)

text \<open>
  Claim C7. The node id \<^verbatim>\<open>"n1 module.vpc.aws_subnet.this"\<close> has the block reference
  \<^verbatim>\<open>module.vpc.aws_subnet.this\<close>; its classification has module name \<^verbatim>\<open>vpc\<close> and
  residual block id \<^verbatim>\<open>aws_subnet.this\<close>, a resource with type \<^verbatim>\<open>aws_subnet\<close> and name
  \<^verbatim>\<open>this\<close>. Whenever seeding this node returns and some row of the table lists
  \<^verbatim>\<open>aws_subnet\<close> as a main diagram block, the map holds under the block reference a
  group with module name \<^verbatim>\<open>vpc\<close>, of that type and with this node as main node.
\<close>

theorem C7_module_attachment:
  "centralPartOf ''n1 module.vpc.aws_subnet.this'' = Some ''module.vpc.aws_subnet.this''
   \<and> checkHclBlockType ''module.vpc.aws_subnet.this'' =
       \<lparr> processedBlockId = ''aws_subnet.this'', isData = False, isVariable = False,
         isResource = True, isLocal = False, isOutput = False, isProvider = False,
         isModule = False, isResourceWithName = True, moduleName = ''vpc'' \<rparr>
   \<and> getResourceNameAndType ''aws_subnet.this'' = Inr (Some ''aws_subnet'', Some ''this'')
   \<and> (addNodeToGroup \<lparr> node_id = ''n1 module.vpc.aws_subnet.this'' \<rparr> nodeGroups True jsonArray
          planJsonObj computeTerraformPlan = Inr nodeGroups'
        \<and> list_ex (\<lambda>row. rowMatches True row ''aws_subnet'') jsonArray
       \<longrightarrow> (\<exists>g. map_of nodeGroups' ''module.vpc.aws_subnet.this'' = Some g
                \<and> gmoduleName g = ''vpc'' \<and> gtype g = ''aws_subnet''
                \<and> mainNode g = \<lparr> node_id = ''n1 module.vpc.aws_subnet.this'' \<rparr>))"
proof -
  have "\<exists>g. map_of nodeGroups' ''module.vpc.aws_subnet.this'' = Some g
                \<and> gmoduleName g = ''vpc'' \<and> gtype g = ''aws_subnet''
                \<and> mainNode g = \<lparr> node_id = ''n1 module.vpc.aws_subnet.this'' \<rparr>"
    if a: "addNodeToGroup \<lparr> node_id = ''n1 module.vpc.aws_subnet.this'' \<rparr> nodeGroups True jsonArray
          planJsonObj computeTerraformPlan = Inr nodeGroups'"
      and m: "list_ex (\<lambda>row. rowMatches True row ''aws_subnet'') jsonArray"
  proof -
    from addNodeToGroup_module_subnet[OF a] obtain rcs where
      r: "addNodeToGroup_rows jsonArray True \<lparr> node_id = ''n1 module.vpc.aws_subnet.this'' \<rparr>
            ''module.vpc.aws_subnet.this'' rcs ''aws_subnet'' ''this'' ''vpc'' nodeGroups = Inr nodeGroups'" ..
    from m have ne: "filter (\<lambda>row. rowMatches True row ''aws_subnet'') jsonArray \<noteq> []"
      by (auto simp: list_ex_iff filter_empty_conv)
    from addNodeToGroup_rows_last[OF r ne] show ?thesis
      by (auto simp: AList.update_conv' newGroup_def)
  qed
  then show ?thesis
    using central_module_subnet classify_module_subnet name_type_subnet by blast
qed

text \<open>The same at the example row, on the empty map and without a plan.\<close>

theorem C7_module_attachment_witness:
  "list_ex (\<lambda>row. rowMatches True row ''aws_subnet'') [example_row]
   \<and> (\<exists>g. addNodeToGroup \<lparr> node_id = ''n1 module.vpc.aws_subnet.this'' \<rparr> [] True [example_row]
             None False = Inr [(''module.vpc.aws_subnet.this'', g)]
          \<and> gmoduleName g = ''vpc'')"
proof -
  have m: "list_ex (\<lambda>row. rowMatches True row ''aws_subnet'') [example_row]"
    by code_simp
  have a: "addNodeToGroup \<lparr> node_id = ''n1 module.vpc.aws_subnet.this'' \<rparr> [] True [example_row]
             None False =
           Inr [(''module.vpc.aws_subnet.this'',
                 newGroup \<lparr> node_id = ''n1 module.vpc.aws_subnet.this'' \<rparr>
                   ''module.vpc.aws_subnet.this'' example_row (JStr ''this'') [] ''no-op''
                   ''aws_subnet'' ''vpc'')]"
    by code_simp
  from C7_module_attachment[where nodeGroups = "[]" and jsonArray = "[example_row]"
      and planJsonObj = None and computeTerraformPlan = False
      and nodeGroups' = "[(''module.vpc.aws_subnet.this'',
                 newGroup \<lparr> node_id = ''n1 module.vpc.aws_subnet.this'' \<rparr>
                   ''module.vpc.aws_subnet.this'' example_row (JStr ''this'') [] ''no-op''
                   ''aws_subnet'' ''vpc'')]"] a m
  show ?thesis by simp
qed

subsection \<open>What seeding establishes\<close>

lemma addNodeToGroup_cases:
  assumes "addNodeToGroup node gs mb tab plan ctp = Inr gs'"
  shows "gs' = gs \<or>
     (\<exists>key rt rn rcs. centralPartOf (node_id node) = Some key \<and> key \<noteq> [] \<and>
        isResourceWithName (checkHclBlockType key) \<and>
        getResourceNameAndType (processedBlockId (checkHclBlockType key)) = Inr (Some rt, Some rn) \<and>
        rt \<noteq> [] \<and> rn \<noteq> [] \<and>
        addNodeToGroup_rows tab mb node key rcs rt rn (moduleName (checkHclBlockType key)) gs = Inr gs')"
  using assms unfolding addNodeToGroup_def Let_def
  by (auto split: option.splits if_splits sum.splits prod.splits)

lemma addNodeToGroup_result:
  assumes "addNodeToGroup node gs mb tab plan ctp = Inr gs'"
  shows "gs' = gs \<or>
     (\<exists>key row name1 rcs st rt mn. centralPartOf (node_id node) = Some key \<and>
        isResourceWithName (checkHclBlockType key) \<and>
        gs' = AList.update key (newGroup node key row name1 rcs st rt mn) gs)"
proof -
  from addNodeToGroup_cases[OF assms] show ?thesis
  proof
    assume "gs' = gs" then show ?thesis by simp
  next
    assume "\<exists>key rt rn rcs. centralPartOf (node_id node) = Some key \<and> key \<noteq> [] \<and>
        isResourceWithName (checkHclBlockType key) \<and>
        getResourceNameAndType (processedBlockId (checkHclBlockType key)) = Inr (Some rt, Some rn) \<and>
        rt \<noteq> [] \<and> rn \<noteq> [] \<and>
        addNodeToGroup_rows tab mb node key rcs rt rn (moduleName (checkHclBlockType key)) gs = Inr gs'"
    then obtain key rt rn rcs where k: "centralPartOf (node_id node) = Some key"
      and r: "isResourceWithName (checkHclBlockType key)"
      and rows: "addNodeToGroup_rows tab mb node key rcs rt rn (moduleName (checkHclBlockType key)) gs = Inr gs'"
      by blast
    show ?thesis
    proof (cases "filter (\<lambda>row. rowMatches mb row rt) tab = []")
      case True
      from addNodeToGroup_rows_none[OF True] rows show ?thesis by simp
    next
      case False
      from addNodeToGroup_rows_last[OF rows False] k r show ?thesis by blast
    qed
  qed
qed

lemma in_update_cases:
  "(k', v') \<in> set (AList.update k v al) \<Longrightarrow> (k', v') = (k, v) \<or> (k', v') \<in> set al"
  by (induction al) (auto split: if_splits)

lemma seeded_addNodeToGroup:
  assumes "addNodeToGroup node gs mb tab plan ctp = Inr gs'" "seeded gs"
  shows "seeded gs'"
proof -
  from addNodeToGroup_result[OF assms(1)] show ?thesis
  proof
    assume "gs' = gs" with assms(2) show ?thesis by simp
  next
    assume "\<exists>key row name1 rcs st rt mn. centralPartOf (node_id node) = Some key \<and>
        isResourceWithName (checkHclBlockType key) \<and>
        gs' = AList.update key (newGroup node key row name1 rcs st rt mn) gs"
    then obtain key row name1 rcs st rt mn where k: "centralPartOf (node_id node) = Some key"
      and r: "isResourceWithName (checkHclBlockType key)"
      and u: "gs' = AList.update key (newGroup node key row name1 rcs st rt mn) gs" by blast
    have d: "distinct (map fst gs')" using assms(2) unfolding u seeded_def
      by (simp add: AList.distinct_update)
    have "\<And>k' g'. (k', g') \<in> set gs' \<Longrightarrow>
          (\<exists>rcs. nodes g' = [\<lparr> nodeModel = mainNode g', resourceChanges = rcs \<rparr>]) \<and>
          centralPartOf (node_id (mainNode g')) = Some k' \<and>
          isResourceWithName (checkHclBlockType k')"
    proof -
      fix k' g' assume "(k', g') \<in> set gs'"
      then have "(k', g') = (key, newGroup node key row name1 rcs st rt mn) \<or> (k', g') \<in> set gs"
        unfolding u by (rule in_update_cases)
      then show "(\<exists>rcs. nodes g' = [\<lparr> nodeModel = mainNode g', resourceChanges = rcs \<rparr>]) \<and>
          centralPartOf (node_id (mainNode g')) = Some k' \<and>
          isResourceWithName (checkHclBlockType k')"
      proof
        assume "(k', g') = (key, newGroup node key row name1 rcs st rt mn)"
        with k r show ?thesis by (simp add: newGroup_def)
      next
        assume "(k', g') \<in> set gs"
        with assms(2) show ?thesis unfolding seeded_def by blast
      qed
    qed
    with d show ?thesis unfolding seeded_def by blast
  qed
qed

lemma seeded_parseModel_seed:
  "parseModel_seed ns gs tab plan ctp = Inr gs' \<Longrightarrow> seeded gs \<Longrightarrow> seeded gs'"
proof (induction ns arbitrary: gs)
  case Nil
  then show ?case by simp
next
  case (Cons n ns)
  from Cons.prems(1) obtain gs1 where a: "addNodeToGroup n gs True tab plan ctp = Inr gs1"
    and b: "parseModel_seed ns gs1 tab plan ctp = Inr gs'"
    by (auto split: sum.splits)
  from Cons.IH[OF b seeded_addNodeToGroup[OF a Cons.prems(2)]] show ?case .
qed

lemma seeded_claimedIds:
  "seeded gs \<Longrightarrow> claimedIds (map snd gs) = map (\<lambda>(k, g). node_id (mainNode g)) gs"
proof (induction gs)
  case Nil
  then show ?case by (simp add: claimedIds_def)
next
  case (Cons p gs)
  obtain k g where p: "p = (k, g)" by (cases p)
  from Cons.prems have s: "seeded gs" unfolding seeded_def by simp
  from Cons.prems p obtain rcs where "nodes g = [\<lparr> nodeModel = mainNode g, resourceChanges = rcs \<rparr>]"
    unfolding seeded_def by auto
  then have "memberIds g = [node_id (mainNode g)]" by (simp add: memberIds_def)
  with Cons.IH[OF s] p show ?case by (simp add: claimedIds_def)
qed

lemma seeded_wellGrouped:
  assumes "seeded gs"
  shows "wellGrouped gs"
proof -
  have d: "distinct (map fst gs)" using assms unfolding seeded_def by simp
  have c: "\<And>k g. (k, g) \<in> set gs \<Longrightarrow> centralPartOf (node_id (mainNode g)) = Some k"
    using assms unfolding seeded_def by blast
  have "inj_on (\<lambda>(k, g). node_id (mainNode g)) (set gs)"
  proof (rule inj_onI)
    fix x y assume x: "x \<in> set gs" and y: "y \<in> set gs"
      and e: "(\<lambda>(k, g). node_id (mainNode g)) x = (\<lambda>(k, g). node_id (mainNode g)) y"
    obtain k g where xx: "x = (k, g)" by (cases x)
    obtain k' g' where yy: "y = (k', g')" by (cases y)
    from e xx yy c[of k g] c[of k' g'] x y have "k = k'" by simp
    with d x y xx yy show "x = y" by (metis eq_key_imp_eq_value)
  qed
  moreover from d have "distinct gs" by (simp add: distinct_map)
  ultimately have "distinct (map (\<lambda>(k, g). node_id (mainNode g)) gs)"
    by (simp add: distinct_map)
  then have dc: "distinct (claimedIds (map snd gs))" by (simp add: seeded_claimedIds[OF assms])
  have "\<And>k g. (k, g) \<in> set gs \<Longrightarrow>
          (\<forall>i \<in> set (memberIds g). eligible i) \<and> (\<exists>m ms. nodes g = m # ms \<and> nodeModel m = mainNode g)"
  proof -
    fix k g assume kg: "(k, g) \<in> set gs"
    with assms obtain rcs where n: "nodes g = [\<lparr> nodeModel = mainNode g, resourceChanges = rcs \<rparr>]"
      and r: "isResourceWithName (checkHclBlockType k)"
      unfolding seeded_def by blast
    from n c[OF kg] r show "(\<forall>i \<in> set (memberIds g). eligible i) \<and> (\<exists>m ms. nodes g = m # ms \<and> nodeModel m = mainNode g)"
      by (simp add: memberIds_def eligible_def)
  qed
  with d dc show ?thesis unfolding wellGrouped_def by blast
qed


subsection \<open>The fold of change records into a state\<close>

text \<open>
  Claim C2, amended. The fold of \<^verbatim>\<open>addNodeToGroup\<close> depends on the order of the
  records. \<^verbatim>\<open>[no-op]\<close> then \<^verbatim>\<open>[create]\<close> gives \<^verbatim>\<open>create\<close>, but \<^verbatim>\<open>[create]\<close> then
  \<^verbatim>\<open>[no-op]\<close> gives \<^verbatim>\<open>update\<close>; \<^verbatim>\<open>[no-op]\<close> and \<^verbatim>\<open>[read]\<close> give \<^verbatim>\<open>read\<close> and
  \<^verbatim>\<open>[create]\<close> and \<^verbatim>\<open>[delete]\<close> give \<^verbatim>\<open>update\<close> in either order. In general a held
  \<^verbatim>\<open>no-op\<close> or \<^verbatim>\<open>read\<close> is replaced by any incoming tag that is neither, two different
  tags among \<^verbatim>\<open>no-op\<close> and \<^verbatim>\<open>read\<close> give \<^verbatim>\<open>read\<close>, a held tag that is neither
  followed by any different tag (also \<^verbatim>\<open>no-op\<close> or \<^verbatim>\<open>read\<close>) gives \<^verbatim>\<open>update\<close>, and
  an identical tag repeats as itself.
\<close>

theorem C2_state_fold:
  "(actions a = [''no-op''] \<and> actions b = [''create'']
      \<longrightarrow> generalState_addNodeToGroup [a, b] = ''create'')
   \<and> (actions a = [''create''] \<and> actions b = [''no-op'']
      \<longrightarrow> generalState_addNodeToGroup [a, b] = ''update'')
   \<and> ({actions a, actions b} = {[''no-op''], [''read'']}
      \<longrightarrow> generalState_addNodeToGroup [a, b] = ''read'')
   \<and> ({actions a, actions b} = {[''create''], [''delete'']}
      \<longrightarrow> generalState_addNodeToGroup [a, b] = ''update'')
   \<and> (lowState g \<and> \<not> lowState n \<longrightarrow> stepState_addNodeToGroup g n = n)
   \<and> (lowState g \<and> lowState n \<and> n \<noteq> g \<longrightarrow> stepState_addNodeToGroup g n = ''read'')
   \<and> (\<not> lowState g \<and> n \<noteq> g \<longrightarrow> stepState_addNodeToGroup g n = ''update'')
   \<and> stepState_addNodeToGroup g g = g"
  by (auto simp: generalState_addNodeToGroup_def stepState_addNodeToGroup_def lowState_def
        doubleton_eq_iff)

text \<open>The amended claim at concrete records and tags.\<close>

theorem C2_state_fold_witness:
  "generalState_addNodeToGroup
     [\<lparr> address = ''aws_instance.web[0]'', actions = [''no-op''], after = JUndefined \<rparr>,
      \<lparr> address = ''aws_instance.web[1]'', actions = [''create''], after = JUndefined \<rparr>] = ''create''
   \<and> generalState_addNodeToGroup
     [\<lparr> address = ''aws_instance.web[0]'', actions = [''create''], after = JUndefined \<rparr>,
      \<lparr> address = ''aws_instance.web[1]'', actions = [''no-op''], after = JUndefined \<rparr>] = ''update''
   \<and> generalState_addNodeToGroup
     [\<lparr> address = ''aws_instance.web[0]'', actions = [''read''], after = JUndefined \<rparr>,
      \<lparr> address = ''aws_instance.web[1]'', actions = [''no-op''], after = JUndefined \<rparr>] = ''read''
   \<and> generalState_addNodeToGroup
     [\<lparr> address = ''aws_instance.web[0]'', actions = [''delete''], after = JUndefined \<rparr>,
      \<lparr> address = ''aws_instance.web[1]'', actions = [''create''], after = JUndefined \<rparr>] = ''update''
   \<and> stepState_addNodeToGroup ''read'' ''delete'' = ''delete''
   \<and> stepState_addNodeToGroup ''read'' ''no-op'' = ''read''
   \<and> stepState_addNodeToGroup ''delete'' ''read'' = ''update''"
  using
    C2_state_fold[of "\<lparr> address = ''aws_instance.web[0]'', actions = [''no-op''], after = JUndefined \<rparr>"
                     "\<lparr> address = ''aws_instance.web[1]'', actions = [''create''], after = JUndefined \<rparr>"
                     "''read''" "''delete''"]
    C2_state_fold[of "\<lparr> address = ''aws_instance.web[0]'', actions = [''create''], after = JUndefined \<rparr>"
                     "\<lparr> address = ''aws_instance.web[1]'', actions = [''no-op''], after = JUndefined \<rparr>"
                     "''read''" "''no-op''"]
    C2_state_fold[of "\<lparr> address = ''aws_instance.web[0]'', actions = [''read''], after = JUndefined \<rparr>"
                     "\<lparr> address = ''aws_instance.web[1]'', actions = [''no-op''], after = JUndefined \<rparr>"
                     "''delete''" "''read''"]
    C2_state_fold[of "\<lparr> address = ''aws_instance.web[0]'', actions = [''delete''], after = JUndefined \<rparr>"
                     "\<lparr> address = ''aws_instance.web[1]'', actions = [''create''], after = JUndefined \<rparr>"
                     "''delete''" "''read''"]
  by (simp add: lowState_def doubleton_eq_iff)

text \<open>
  The claim as stated fails: a \<^verbatim>\<open>[create]\<close> record followed by a \<^verbatim>\<open>[no-op]\<close> record
  does not resolve to \<^verbatim>\<open>create\<close>.
\<close>

theorem C2_state_fold_counterexample:
  "generalState_addNodeToGroup
     [\<lparr> address = ''aws_instance.web[0]'', actions = [''create''], after = JUndefined \<rparr>,
      \<lparr> address = ''aws_instance.web[1]'', actions = [''no-op''], after = JUndefined \<rparr>] \<noteq> ''create''"
  by (simp add: generalState_addNodeToGroup_def stepState_addNodeToGroup_def lowState_def)

text \<open>
  Claim C3. The two folds are not the same function: on the single record \<^verbatim>\<open>[create]\<close>
  the fold of \<^verbatim>\<open>addNodeToGroup\<close> gives \<^verbatim>\<open>create\<close> and the fold of
  \<^verbatim>\<open>getConnectedNodes\<close> gives \<^verbatim>\<open>update\<close>.
\<close>

theorem C3_folds_differ:
  "generalState_addNodeToGroup
     [\<lparr> address = ''aws_security_group.sg'', actions = [''create''], after = JUndefined \<rparr>] = ''create''
   \<and> generalState_getConnectedNodes
     [\<lparr> address = ''aws_security_group.sg'', actions = [''create''], after = JUndefined \<rparr>] = ''update''"
  by (simp add: generalState_addNodeToGroup_def stepState_addNodeToGroup_def
        generalState_getConnectedNodes_def stepState_getConnectedNodes_def lowState_def)

text \<open>
  Both folds give \<^verbatim>\<open>no-op\<close> exactly when every record has the tag \<^verbatim>\<open>no-op\<close>, which
  is all that \<^verbatim>\<open>getConnectedNodes\<close> reads of its fold (line 548).
\<close>

lemma stepState_addNodeToGroup_noop:
  "stepState_addNodeToGroup g n = ''no-op'' \<longleftrightarrow> g = ''no-op'' \<and> n = ''no-op''"
  by (auto simp: stepState_addNodeToGroup_def lowState_def)

lemma stepState_getConnectedNodes_noop:
  "stepState_getConnectedNodes g n = ''no-op'' \<longleftrightarrow> g = ''no-op'' \<and> n = ''no-op''"
  by (auto simp: stepState_getConnectedNodes_def lowState_def)

lemma foldl_addNodeToGroup_noop:
  "foldl stepState_addNodeToGroup g tags = ''no-op'' \<longleftrightarrow> g = ''no-op'' \<and> (\<forall>t \<in> set tags. t = ''no-op'')"
  by (induction tags arbitrary: g) (auto simp: stepState_addNodeToGroup_noop)

lemma foldl_getConnectedNodes_noop:
  "foldl stepState_getConnectedNodes g tags = ''no-op'' \<longleftrightarrow> g = ''no-op'' \<and> (\<forall>t \<in> set tags. t = ''no-op'')"
  by (induction tags arbitrary: g) (auto simp: stepState_getConnectedNodes_noop)

lemma folds_agree_on_noop:
  "(generalState_addNodeToGroup rcs = ''no-op'') = (generalState_getConnectedNodes rcs = ''no-op'')"
  unfolding generalState_addNodeToGroup_def generalState_getConnectedNodes_def
  by (simp only: foldl_addNodeToGroup_noop foldl_getConnectedNodes_noop)

subsection \<open>Display name\<close>

text \<open>
  Claim C9. Name resolution raises when the first change record has no \<^verbatim>\<open>after\<close>
  mapping (absent or \<^verbatim>\<open>null\<close>), or one without the first path segment and without a
  \<^verbatim>\<open>name\<close>, and the row's attribute path has two segments; seeding the node then
  raises too.
\<close>

theorem C9_name_resolution_raises:
  "resolveName [\<lparr> address = ''aws_instance.web'', actions = [''delete''], after = JUndefined \<rparr>]
      ''tags.Name'' ''web'' = Inl TypeError
   \<and> resolveName [\<lparr> address = ''aws_instance.web'', actions = [''delete''], after = JNull \<rparr>]
      ''tags.Name'' ''web'' = Inl TypeError
   \<and> resolveName [\<lparr> address = ''aws_instance.web'', actions = [''create''],
                    after = JObj [(''ami'', JStr ''ami-1'')] \<rparr>]
      ''tags.Name'' ''web'' = Inl TypeError
   \<and> nameAttributeOf True example_row ''aws_instance'' = ''tags.Name''
   \<and> addNodeToGroup \<lparr> node_id = ''n1 aws_instance.web'' \<rparr> [] True [example_row]
        (Some [\<lparr> address = ''aws_instance.web'', actions = [''delete''], after = JNull \<rparr>]) True
      = Inl TypeError"
  by code_simp

subsection \<open>Data blocks without a name segment\<close>

text \<open>
  Claim C10. The block reference \<^verbatim>\<open>data.aws_region\<close> is classified as a data block with
  residual id \<^verbatim>\<open>aws_region\<close>; extracting type and name of that residual raises, and so
  does the expansion of a group that has an edge to such a node.
\<close>

theorem C10_bare_data_raises:
  "isData (checkHclBlockType ''data.aws_region'')
   \<and> processedBlockId (checkHclBlockType ''data.aws_region'') = ''aws_region''
   \<and> getResourceNameAndType ''aws_region'' = Inl TypeError
   \<and> parseModel_grouping 3 example_bare_data None [example_row] = Some (Inl TypeError)"
  by code_simp

text \<open>
  The same read fails for a data block of another provider whose name starts with
  \<^verbatim>\<open>aws_\<close>: the name is taken for the type, and no segment follows it.
\<close>

lemma data_name_taken_for_type_raises:
  "isData (checkHclBlockType ''data.archive_file.aws_lambda'')
   \<and> getResourceNameAndType (processedBlockId (checkHclBlockType ''data.archive_file.aws_lambda''))
       = Inl TypeError"
  by code_simp

section \<open>Properties of expansion\<close>

lemma isNodePresent_iff: "isNodePresent gs i \<longleftrightarrow> i \<in> set (claimedIds gs)"
  by (auto simp: isNodePresent_def claimedIds_def memberIds_def list_ex_iff)

lemma absorbed_refl: "absorbed others sg g g"
  unfolding absorbed_def by (rule exI[of _ "[]"]) simp

lemma memberIds_absorbed:
  "absorbed others sg g g' \<Longrightarrow> \<exists>extra. memberIds g' = memberIds g @ extra"
  unfolding absorbed_def memberIds_def
  by (metis (no_types, lifting) NodeGroup.select_convs(1) NodeGroup.surjective NodeGroup.update_convs(1,12) map_append)

lemma absorbed_trans:
  assumes "absorbed others sg g g1" "absorbed others sg g1 g2"
  shows "absorbed others sg g g2"
proof -
  from assms(1) obtain e1 where e1: "g1 = g \<lparr> nodes := nodes g @ e1, state := state g1 \<rparr>"
     "distinct (map (\<lambda>n. node_id (nodeModel n)) e1)"
     "\<forall>n \<in> set e1. node_id (nodeModel n) \<notin> set (claimedIds (g # others)) \<and>
            eligible (node_id (nodeModel n)) \<and> nodeModel n \<in> set (sg_nodes sg)"
    unfolding absorbed_def by blast
  from assms(2) obtain e2 where e2: "g2 = g1 \<lparr> nodes := nodes g1 @ e2, state := state g2 \<rparr>"
     "distinct (map (\<lambda>n. node_id (nodeModel n)) e2)"
     "\<forall>n \<in> set e2. node_id (nodeModel n) \<notin> set (claimedIds (g1 # others)) \<and>
            eligible (node_id (nodeModel n)) \<and> nodeModel n \<in> set (sg_nodes sg)"
    unfolding absorbed_def by blast
  have n1: "nodes g1 = nodes g @ e1" by (subst e1(1)) simp
  have cl: "set (claimedIds (g1 # others)) = set (claimedIds (g # others)) \<union> (\<lambda>n. node_id (nodeModel n)) ` set e1"
    by (auto simp: claimedIds_def memberIds_def n1)
  have eq: "g2 = g \<lparr> nodes := nodes g @ (e1 @ e2), state := state g2 \<rparr>"
    by (subst e2(1), subst e1(1)) (simp add: n1)
  have d: "distinct (map (\<lambda>n. node_id (nodeModel n)) (e1 @ e2))"
  proof -
    have "\<And>n m. n \<in> set e1 \<Longrightarrow> m \<in> set e2 \<Longrightarrow> node_id (nodeModel n) \<noteq> node_id (nodeModel m)"
    proof
      fix n m assume n: "n \<in> set e1" and m: "m \<in> set e2"
        and eq: "node_id (nodeModel n) = node_id (nodeModel m)"
      from e2(3) m have "node_id (nodeModel m) \<notin> set (claimedIds (g1 # others))" by blast
      with cl have "node_id (nodeModel m) \<notin> (\<lambda>n. node_id (nodeModel n)) ` set e1" by blast
      with n eq show False by (metis imageI)
    qed
    then have "(\<lambda>n. node_id (nodeModel n)) ` set e1 \<inter> (\<lambda>n. node_id (nodeModel n)) ` set e2 = {}"
      by blast
    with e1(2) e2(2) show ?thesis by simp
  qed
  have m: "\<forall>n \<in> set (e1 @ e2). node_id (nodeModel n) \<notin> set (claimedIds (g # others)) \<and>
            eligible (node_id (nodeModel n)) \<and> nodeModel n \<in> set (sg_nodes sg)"
    using e1(3) e2(3) cl by auto
  show ?thesis unfolding absorbed_def using eq d m by blast
qed

lemma absorbCandidate_absorbed:
  assumes "absorbCandidate g others sg start tab plan edge = Inr (Some (newNode, g1))"
  shows "absorbed others sg g g1 \<and> node_id newNode \<in> set (memberIds g1)
         \<and> node_id newNode \<notin> set (claimedIds (g # others)) \<and> newNode \<in> set (sg_nodes sg)"
proof -
  let ?i = "if start then snd edge else fst edge"
  from assms obtain cp where cp: "centralPartOf ?i = Some cp"
    and el: "isResourceWithName (checkHclBlockType cp) \<or> isData (checkHclBlockType cp)"
    and np: "\<not> isNodePresent (g # others) ?i"
    and fn: "find (\<lambda>n. node_id n = ?i) (sg_nodes sg) = Some newNode"
    and g1: "g1 = absorbNode newNode cp g plan"
    unfolding absorbCandidate_def Let_def
    by (auto split: option.splits if_splits sum.splits prod.splits)
  from fn have id: "node_id newNode = ?i" and mem: "newNode \<in> set (sg_nodes sg)"
    by (auto simp: find_Some_iff in_set_conv_nth)
  define rcs where "rcs = (case plan of None \<Rightarrow> [] | Some resource_changes \<Rightarrow> changesOf resource_changes cp)"
  have g1': "g1 = g \<lparr> nodes := nodes g @ [\<lparr> nodeModel = newNode, resourceChanges = rcs \<rparr>], state := state g1 \<rparr>"
    unfolding g1 absorbNode_def Let_def rcs_def by simp
  have "absorbed others sg g g1"
    unfolding absorbed_def
    apply (rule exI[of _ "[\<lparr> nodeModel = newNode, resourceChanges = rcs \<rparr>]"])
    using g1' np el cp mem by (simp add: id isNodePresent_iff eligible_def)
  moreover have "node_id newNode \<in> set (memberIds g1)"
    by (subst g1') (simp add: memberIds_def)
  ultimately show ?thesis using np mem by (simp add: id isNodePresent_iff)
qed

lemma edges_absorbed:
  assumes IH: "\<And>node g start g'. getConnectedNodes fuel node g others sg start tab plan = Some (Inr g')
                 \<Longrightarrow> absorbed others sg g g'"
  shows "getConnectedNodes_edges fuel es g others sg start tab plan = Some (Inr g')
         \<Longrightarrow> absorbed others sg g g'"
proof (induction es arbitrary: g)
  case Nil
  then show ?case by (simp add: absorbed_refl)
next
  case (Cons edge rest)
  show ?case
  proof (cases "absorbCandidate g others sg start tab plan edge")
    case (Inl e)
    with Cons.prems show ?thesis by simp
  next
    case (Inr c)
    show ?thesis
    proof (cases c)
      case None
      with Inr Cons show ?thesis by simp
    next
      case (Some p)
      obtain newNode g1 where p: "p = (newNode, g1)" by (cases p)
      from Inr Some p have ac: "absorbCandidate g others sg start tab plan edge = Inr (Some (newNode, g1))" by simp
      from Cons.prems ac obtain g2 g3 where
        c1: "getConnectedNodes fuel newNode g1 others sg start tab plan = Some (Inr g2)" and
        c2: "getConnectedNodes fuel newNode g2 others sg (\<not> start) tab plan = Some (Inr g3)" and
        c3: "getConnectedNodes_edges fuel rest g3 others sg start tab plan = Some (Inr g')"
        by (auto split: option.splits sum.splits)
      from absorbCandidate_absorbed[OF ac] have "absorbed others sg g g1" by simp
      with IH[OF c1] IH[OF c2] Cons.IH[OF c3] show ?thesis
        by (blast intro: absorbed_trans)
    qed
  qed
qed

lemma getConnectedNodes_absorbed:
  "getConnectedNodes fuel node g others sg start tab plan = Some (Inr g') \<Longrightarrow> absorbed others sg g g'"
proof (induction fuel arbitrary: node g start g')
  case 0
  then show ?case by simp
next
  case (Suc fuel)
  from Suc.prems show ?case
    by (simp add: edges_absorbed[OF Suc.IH])
qed


lemma absorbed_claimed_mono:
  assumes "absorbed others sg g g'"
  shows "set (claimedIds (g # others)) \<subseteq> set (claimedIds (g' # others))"
proof -
  from memberIds_absorbed[OF assms] obtain extra where "memberIds g' = memberIds g @ extra" ..
  then show ?thesis by (auto simp: claimedIds_def)
qed

lemma absorbed_unclaimed_le:
  assumes "absorbed others sg g g'"
  shows "card (unclaimed sg (g' # others)) \<le> card (unclaimed sg (g # others))"
proof -
  have "unclaimed sg (g' # others) \<subseteq> unclaimed sg (g # others)"
    using absorbed_claimed_mono[OF assms] unfolding unclaimed_def by blast
  moreover have "finite (unclaimed sg (g # others))" unfolding unclaimed_def by simp
  ultimately show ?thesis by (rule card_mono[rotated])
qed

lemma absorbCandidate_unclaimed_less:
  assumes "absorbCandidate g others sg start tab plan edge = Inr (Some (newNode, g1))"
  shows "card (unclaimed sg (g1 # others)) < card (unclaimed sg (g # others))"
proof -
  from absorbCandidate_absorbed[OF assms] have a: "absorbed others sg g g1"
    and i1: "node_id newNode \<in> set (memberIds g1)"
    and i2: "node_id newNode \<notin> set (claimedIds (g # others))"
    and i3: "newNode \<in> set (sg_nodes sg)" by simp_all
  have sub: "unclaimed sg (g1 # others) \<subseteq> unclaimed sg (g # others)"
    using absorbed_claimed_mono[OF a] unfolding unclaimed_def by blast
  have "node_id newNode \<in> unclaimed sg (g # others)"
    using i2 i3 unfolding unclaimed_def by simp
  moreover have "node_id newNode \<notin> unclaimed sg (g1 # others)"
    using i1 unfolding unclaimed_def claimedIds_def by simp
  ultimately have "unclaimed sg (g1 # others) \<subset> unclaimed sg (g # others)"
    using sub by blast
  moreover have "finite (unclaimed sg (g # others))" unfolding unclaimed_def by simp
  ultimately show ?thesis by (rule psubset_card_mono[rotated])
qed

lemma edges_returns:
  assumes IH: "\<And>node g start. card (unclaimed sg (g # others)) < fuel
                 \<Longrightarrow> getConnectedNodes fuel node g others sg start tab plan \<noteq> None"
  shows "card (unclaimed sg (g # others)) \<le> fuel
         \<Longrightarrow> getConnectedNodes_edges fuel es g others sg start tab plan \<noteq> None"
proof (induction es arbitrary: g)
  case Nil
  then show ?case by simp
next
  case (Cons edge rest)
  show ?case
  proof (cases "absorbCandidate g others sg start tab plan edge")
    case (Inl e)
    then show ?thesis by simp
  next
    case (Inr c)
    show ?thesis
    proof (cases c)
      case None
      with Inr Cons show ?thesis by simp
    next
      case (Some p)
      obtain newNode g1 where p: "p = (newNode, g1)" by (cases p)
      from Inr Some p have ac: "absorbCandidate g others sg start tab plan edge = Inr (Some (newNode, g1))" by simp
      from absorbCandidate_unclaimed_less[OF ac] Cons.prems
      have l1: "card (unclaimed sg (g1 # others)) < fuel" by simp
      have a1: "absorbed others sg g g1" using absorbCandidate_absorbed[OF ac] by simp
      show ?thesis
      proof (cases "getConnectedNodes fuel newNode g1 others sg start tab plan")
        case None
        with IH[OF l1, of newNode start] show ?thesis by simp
      next
        case r1: (Some r)
        show ?thesis
        proof (cases r)
          case (Inl e)
          with ac r1 show ?thesis by simp
        next
          case (Inr g2)
          with r1 have c1: "getConnectedNodes fuel newNode g1 others sg start tab plan = Some (Inr g2)" by simp
          have a2: "absorbed others sg g1 g2" by (rule getConnectedNodes_absorbed[OF c1])
          from absorbed_unclaimed_le[OF a2] l1
          have l2: "card (unclaimed sg (g2 # others)) < fuel" by simp
          show ?thesis
          proof (cases "getConnectedNodes fuel newNode g2 others sg (\<not> start) tab plan")
            case None
            with IH[OF l2, of newNode "\<not> start"] show ?thesis by simp
          next
            case r2: (Some r')
            show ?thesis
            proof (cases r')
              case (Inl e)
              with ac c1 r2 show ?thesis by simp
            next
              case (Inr g3)
              with r2 have c2: "getConnectedNodes fuel newNode g2 others sg (\<not> start) tab plan = Some (Inr g3)" by simp
              have a3: "absorbed others sg g2 g3" by (rule getConnectedNodes_absorbed[OF c2])
              from absorbed_unclaimed_le[OF a3] l2
              have "card (unclaimed sg (g3 # others)) \<le> fuel" by simp
              from Cons.IH[OF this] ac c1 c2 show ?thesis by simp
            qed
          qed
        qed
      qed
    qed
  qed
qed

lemma getConnectedNodes_returns:
  "card (unclaimed sg (g # others)) < fuel
   \<Longrightarrow> getConnectedNodes fuel node g others sg start tab plan \<noteq> None"
proof (induction fuel arbitrary: node g start)
  case 0
  then show ?case by simp
next
  case (Suc fuel)
  from Suc.prems have "card (unclaimed sg (g # others)) \<le> fuel" by simp
  then show ?case
    by (simp add: edges_returns[OF Suc.IH])
qed

lemma unclaimed_le_length: "card (unclaimed sg gs) \<le> length (sg_nodes sg)"
proof -
  have "card (unclaimed sg gs) \<le> card (node_id ` set (sg_nodes sg))"
    unfolding unclaimed_def by (rule card_mono) auto
  also have "\<dots> \<le> card (set (sg_nodes sg))" by (rule card_image_le) simp
  also have "\<dots> \<le> length (sg_nodes sg)" by (rule card_length)
  finally show ?thesis .
qed

lemma claimedIds_append: "claimedIds (xs @ ys) = claimedIds xs @ claimedIds ys"
  by (simp add: claimedIds_def)

lemma claimedIds_Cons: "claimedIds (g # gs) = memberIds g @ claimedIds gs"
  by (simp add: claimedIds_def)

lemma wellGrouped_absorbed:
  assumes w: "wellGrouped (visited @ (key, g) # todo)"
    and a: "absorbed (map snd (visited @ todo)) sg g g2"
  shows "wellGrouped ((visited @ [(key, g2)]) @ todo)"
proof -
  let ?f = "\<lambda>n. node_id (nodeModel n)"
  from a obtain extra where g2: "g2 = g \<lparr> nodes := nodes g @ extra, state := state g2 \<rparr>"
    and dE: "distinct (map ?f extra)"
    and E: "\<forall>n \<in> set extra. ?f n \<notin> set (claimedIds (g # map snd (visited @ todo))) \<and>
              eligible (?f n) \<and> nodeModel n \<in> set (sg_nodes sg)"
    unfolding absorbed_def by blast
  have n2: "nodes g2 = nodes g @ extra" by (subst g2) simp
  have m2: "mainNode g2 = mainNode g" by (subst g2) simp
  have mem2: "memberIds g2 = memberIds g @ map ?f extra" by (simp add: memberIds_def n2)
  define A where "A = claimedIds (map snd visited)"
  define B where "B = claimedIds (map snd todo)"
  define M where "M = memberIds g"
  define X where "X = map ?f extra"
  have d0: "distinct (A @ M @ B)"
    using w unfolding wellGrouped_def A_def B_def M_def
    by (simp add: claimedIds_append claimedIds_Cons)
  have dX: "distinct X" using dE unfolding X_def .
  have "\<forall>x \<in> set X. x \<notin> set (M @ A @ B)"
    using E unfolding X_def A_def B_def M_def
    by (simp add: claimedIds_append claimedIds_Cons)
  with d0 dX have "distinct (A @ (M @ X) @ B)" by auto
  then have dc: "distinct (claimedIds (map snd ((visited @ [(key, g2)]) @ todo)))"
    unfolding A_def B_def M_def X_def
    by (simp add: claimedIds_append claimedIds_Cons mem2)
  have dk: "distinct (map fst ((visited @ [(key, g2)]) @ todo))"
    using w unfolding wellGrouped_def by simp
  have old: "\<And>k h. (k, h) \<in> set (visited @ (key, g) # todo) \<Longrightarrow>
          (\<forall>i \<in> set (memberIds h). eligible i) \<and> (\<exists>m ms. nodes h = m # ms \<and> nodeModel m = mainNode h)"
    using w unfolding wellGrouped_def by blast
  have new: "(\<forall>i \<in> set (memberIds g2). eligible i) \<and> (\<exists>m ms. nodes g2 = m # ms \<and> nodeModel m = mainNode g2)"
  proof -
    from old[of key g] have e: "\<forall>i \<in> set (memberIds g). eligible i"
      and h: "\<exists>m ms. nodes g = m # ms \<and> nodeModel m = mainNode g" by simp_all
    from h obtain m ms where "nodes g = m # ms" "nodeModel m = mainNode g" by blast
    then have "nodes g2 = m # (ms @ extra) \<and> nodeModel m = mainNode g2" by (simp add: n2 m2)
    moreover have "\<forall>i \<in> set (memberIds g2). eligible i" using e E by (auto simp: mem2)
    ultimately show ?thesis by blast
  qed
  have "\<And>k h. (k, h) \<in> set ((visited @ [(key, g2)]) @ todo) \<Longrightarrow>
          (\<forall>i \<in> set (memberIds h). eligible i) \<and> (\<exists>m ms. nodes h = m # ms \<and> nodeModel m = mainNode h)"
  proof -
    fix k h assume "(k, h) \<in> set ((visited @ [(key, g2)]) @ todo)"
    then have "(k, h) = (key, g2) \<or> (k, h) \<in> set (visited @ (key, g) # todo)" by auto
    then show "(\<forall>i \<in> set (memberIds h). eligible i) \<and> (\<exists>m ms. nodes h = m # ms \<and> nodeModel m = mainNode h)"
      using new old by blast
  qed
  with dk dc show ?thesis unfolding wellGrouped_def by blast
qed

lemma wellGrouped_parseModel_expand:
  "parseModel_expand fuel visited todo model tab plan = Some (Inr gs') \<Longrightarrow>
   wellGrouped (visited @ todo) \<Longrightarrow> wellGrouped gs'"
proof (induction todo arbitrary: visited)
  case Nil
  then show ?case by simp
next
  case (Cons p todo)
  obtain key g where p: "p = (key, g)" by (cases p)
  from Cons.prems(1) p obtain sg rest g1 g2 where model: "model = sg # rest"
    and c1: "getConnectedNodes fuel (mainNode g) g (map snd (visited @ todo)) sg True tab plan = Some (Inr g1)"
    and c2: "getConnectedNodes fuel (mainNode g1) g1 (map snd (visited @ todo)) sg False tab plan = Some (Inr g2)"
    and c3: "parseModel_expand fuel (visited @ [(key, g2)]) todo model tab plan = Some (Inr gs')"
    by (auto split: list.splits option.splits sum.splits)
  have "absorbed (map snd (visited @ todo)) sg g g2"
    using getConnectedNodes_absorbed[OF c1] getConnectedNodes_absorbed[OF c2]
    by (rule absorbed_trans)
  from wellGrouped_absorbed[OF _ this] Cons.prems(2) p
  have "wellGrouped ((visited @ [(key, g2)]) @ todo)" by simp
  from Cons.IH[OF c3 this] show ?case .
qed

lemma parseModel_expand_returns:
  "graphSize model < fuel \<Longrightarrow> parseModel_expand fuel visited todo model tab plan \<noteq> None"
proof (induction todo arbitrary: visited)
  case Nil
  then show ?case by simp
next
  case (Cons p todo)
  obtain key g where p: "p = (key, g)" by (cases p)
  show ?case
  proof (cases model)
    case Nil
    with p show ?thesis by simp
  next
    case (Cons sg rest)
    with Cons.prems have len: "length (sg_nodes sg) < fuel" by (simp add: graphSize_def)
    let ?others = "map snd (visited @ todo)"
    have l1: "card (unclaimed sg (g # ?others)) < fuel"
      using unclaimed_le_length[of sg "g # ?others"] len by simp
    show ?thesis
    proof (cases "getConnectedNodes fuel (mainNode g) g ?others sg True tab plan")
      case None
      with getConnectedNodes_returns[OF l1, of "mainNode g" True tab plan] show ?thesis by simp
    next
      case r1: (Some r)
      show ?thesis
      proof (cases r)
        case (Inl e)
        with r1 p Cons show ?thesis by simp
      next
        case (Inr g1)
        have l2: "card (unclaimed sg (g1 # ?others)) < fuel"
          using unclaimed_le_length[of sg "g1 # ?others"] len by simp
        show ?thesis
        proof (cases "getConnectedNodes fuel (mainNode g1) g1 ?others sg False tab plan")
          case None
          with getConnectedNodes_returns[OF l2, of "mainNode g1" False tab plan] show ?thesis by simp
        next
          case r2: (Some r')
          show ?thesis
          proof (cases r')
            case (Inl e)
            with r1 r2 Inr p Cons show ?thesis by simp
          next
            case g2: (Inr g2)
            from Cons.IH[OF Cons.prems, of "visited @ [(key, g2)]"] r1 r2 Inr g2 p Cons
            show ?thesis by simp
          qed
        qed
      qed
    qed
  qed
qed

subsection \<open>The grouping pass\<close>

lemma wellGrouped_parseModel_grouping:
  assumes "parseModel_grouping fuel model planJsonObj jsonArray = Some (Inr nodeGroups)"
  shows "wellGrouped nodeGroups"
proof -
  from assms obtain seeds where
    s: "parseModel_seed (concat (map sg_nodes model)) [] jsonArray planJsonObj (planJsonObj \<noteq> None)
          = Inr seeds"
    and e: "parseModel_expand fuel [] seeds model jsonArray planJsonObj = Some (Inr nodeGroups)"
    unfolding parseModel_grouping_def by (auto split: sum.splits)
  have "seeded []" by (simp add: seeded_def)
  from seeded_parseModel_seed[OF s this] have "wellGrouped seeds" by (rule seeded_wellGrouped)
  with wellGrouped_parseModel_expand[OF e] show ?thesis by simp
qed

lemma example_cycle_grouping:
  "parseModel_grouping 4 example_cycle None [example_row] =
     Some (Inr [(''aws_instance.web'',
                 example_group [example_member ''n1 aws_instance.web'' [],
                                example_member ''n2 aws_security_group.sg'' [],
                                example_member ''n3 data.aws_ami.u'' []]
                   (JStr ''web'') ''no-op'')])"
  by code_simp

lemma example_cycle_plan_grouping:
  "parseModel_grouping 4 example_cycle (Some example_plan) [example_row] =
     Some (Inr [(''aws_instance.web'',
                 example_group [example_member ''n1 aws_instance.web'' example_plan,
                                example_member ''n2 aws_security_group.sg'' [],
                                example_member ''n3 data.aws_ami.u'' []]
                   (JStr ''web-1'') ''create'')])"
  by code_simp

text \<open>
  Claim C1, amended. After seeding and expansion (no detailed mode), whenever the pass
  returns a map of groups, the member node ids of all groups together are pairwise
  distinct: no node id is held by two groups, nor twice by one. Every member is a node
  whose block reference is classified as a resource with type and name or as a data
  block; data blocks are absorbed as members by the test of line 511, so that a member
  need not be a resource. The lemmas on \<open>absorbed\<close> above show that every node absorbed
  was held by no group when it was pushed.
\<close>

theorem C1_partition:
  assumes "parseModel_grouping fuel model planJsonObj jsonArray = Some (Inr nodeGroups)"
  shows "distinct (claimedIds (map snd nodeGroups))
         \<and> (\<forall>i \<in> set (claimedIds (map snd nodeGroups)). eligible i)"
proof -
  from wellGrouped_parseModel_grouping[OF assms]
  show ?thesis unfolding wellGrouped_def claimedIds_def by auto
qed

text \<open>
  The amended claim on the graph with a cycle of edges: the instance absorbs its security
  group and the data source.
\<close>

theorem C1_partition_witness:
  "parseModel_grouping 4 example_cycle None [example_row] =
     Some (Inr [(''aws_instance.web'',
                 example_group [example_member ''n1 aws_instance.web'' [],
                                example_member ''n2 aws_security_group.sg'' [],
                                example_member ''n3 data.aws_ami.u'' []]
                   (JStr ''web'') ''no-op'')])
   \<and> distinct (claimedIds [example_group [example_member ''n1 aws_instance.web'' [],
                                example_member ''n2 aws_security_group.sg'' [],
                                example_member ''n3 data.aws_ami.u'' []]
                   (JStr ''web'') ''no-op''])
   \<and> list_all eligible (claimedIds [example_group [example_member ''n1 aws_instance.web'' [],
                                example_member ''n2 aws_security_group.sg'' [],
                                example_member ''n3 data.aws_ami.u'' []]
                   (JStr ''web'') ''no-op''])"
  using C1_partition[OF example_cycle_grouping] example_cycle_grouping
  by (simp add: list_all_iff)

text \<open>
  The claim as stated fails: on the same graph the data source is a member of the group
  and is not classified as a resource.
\<close>

theorem C1_partition_counterexample:
  "parseModel_grouping 4 example_cycle None [example_row] =
     Some (Inr [(''aws_instance.web'',
                 example_group [example_member ''n1 aws_instance.web'' [],
                                example_member ''n2 aws_security_group.sg'' [],
                                example_member ''n3 data.aws_ami.u'' []]
                   (JStr ''web'') ''no-op'')])
   \<and> ''n3 data.aws_ami.u'' \<in> set (memberIds (example_group [example_member ''n1 aws_instance.web'' [],
                                example_member ''n2 aws_security_group.sg'' [],
                                example_member ''n3 data.aws_ami.u'' []]
                   (JStr ''web'') ''no-op''))
   \<and> \<not> resourceClassified ''n3 data.aws_ami.u''"
  by code_simp

subsection \<open>Termination\<close>

text \<open>
  Claim C6. For every graph, table, plan, group and list of other groups, a call of
  \<^verbatim>\<open>getConnectedNodes\<close> whose fuel exceeds the number of nodes of the subgraph never
  runs out of fuel: the nesting depth of the recursive calls is bounded by the number of
  graph nodes, as every nested call comes after the push of a node of the subgraph that
  no group held. The same holds for the whole expansion phase and for the grouping pass.
  The outcome is a group (or map of groups) or the exception of claim C10.
\<close>

theorem C6_expansion_terminates:
  "(length (sg_nodes subgraph) < fuel \<longrightarrow>
      (\<exists>r. getConnectedNodes fuel node nodeGroup others subgraph start jsonArray planJsonObj = Some r))
   \<and> (graphSize model < fuel \<longrightarrow>
      (\<exists>r. parseModel_expand fuel visited todo model jsonArray planJsonObj = Some r)
      \<and> (\<exists>r. parseModel_grouping fuel model planJsonObj jsonArray = Some r))"
proof -
  have "getConnectedNodes fuel node nodeGroup others subgraph start jsonArray planJsonObj \<noteq> None"
    if "length (sg_nodes subgraph) < fuel"
  proof -
    from that unclaimed_le_length[of subgraph "nodeGroup # others"]
    have "card (unclaimed subgraph (nodeGroup # others)) < fuel" by simp
    then show ?thesis by (rule getConnectedNodes_returns)
  qed
  moreover have "parseModel_grouping fuel model planJsonObj jsonArray \<noteq> None"
    if "graphSize model < fuel"
    unfolding parseModel_grouping_def
    using parseModel_expand_returns[OF that] by (simp split: sum.splits)
  ultimately show ?thesis using parseModel_expand_returns by auto
qed

text \<open>
  On the graph whose three edges form a cycle, fuel 4 is enough.
\<close>

theorem C6_expansion_terminates_witness:
  "graphSize example_cycle < 4
   \<and> (\<exists>r. parseModel_grouping 4 example_cycle None [example_row] = Some r)
   \<and> (\<exists>r. parseModel_expand 4 [] [] example_cycle [example_row] None = Some r)
   \<and> length (sg_nodes (hd example_cycle)) < 4
   \<and> (\<exists>r. getConnectedNodes 4 \<lparr> node_id = ''n1 aws_instance.web'' \<rparr>
            (example_group [example_member ''n1 aws_instance.web'' []] (JStr ''web'') ''no-op'')
            [] (hd example_cycle) True [example_row] None = Some r)"
proof -
  have h1: "graphSize example_cycle < 4" by code_simp
  have h2: "length (sg_nodes (hd example_cycle)) < 4" by code_simp
  from C6_expansion_terminates[where fuel = 4 and model = example_cycle
      and subgraph = "hd example_cycle" and jsonArray = "[example_row]" and planJsonObj = None
      and visited = "[]" and todo = "[]" and node = "\<lparr> node_id = ''n1 aws_instance.web'' \<rparr>"
      and nodeGroup = "example_group [example_member ''n1 aws_instance.web'' []] (JStr ''web'') ''no-op''"
      and others = "[]" and start = True] h1 h2
  show ?thesis by blast
qed

section \<open>Properties of pruning\<close>

lemma prune_groups_filter:
  assumes "distinct (map fst gs)" "\<forall>(k, g) \<in> set gs. nodes g \<noteq> []"
  shows "prune_groups keys gs =
           Inr (filter (\<lambda>(k, g). k \<notin> set keys \<or> mainNodeChanges g \<noteq> []) gs)"
  using assms
proof (induction keys arbitrary: gs)
  case Nil
  then show ?case by simp
next
  case (Cons key keys)
  show ?case
  proof (cases "map_of gs key")
    case None
    then have nk: "\<And>k g. (k, g) \<in> set gs \<Longrightarrow> k \<noteq> key"
      by (auto simp: map_of_eq_None_iff image_iff)
    have "filter (\<lambda>(k, g). k \<notin> set keys \<or> mainNodeChanges g \<noteq> []) gs =
          filter (\<lambda>(k, g). k \<notin> set (key # keys) \<or> mainNodeChanges g \<noteq> []) gs"
      by (rule filter_cong) (auto dest: nk)
    with None Cons.IH[OF Cons.prems] show ?thesis by simp
  next
    case (Some g0)
    with Cons.prems(1) have in0: "(key, g0) \<in> set gs" by simp
    have uniq: "\<And>g. (key, g) \<in> set gs \<Longrightarrow> g = g0"
      using Cons.prems(1) in0 by (metis eq_key_imp_eq_value)
    from Cons.prems(2) in0 obtain first rest where n0: "nodes g0 = first # rest"
      by (cases "nodes g0") auto
    then have mc: "mainNodeChanges g0 = resourceChanges first" by (simp add: mainNodeChanges_def)
    show ?thesis
    proof (cases "resourceChanges first = []")
      case True
      have d: "distinct (map fst (AList.delete key gs))"
        using Cons.prems(1) by (rule AList.distinct_delete)
      have ne: "\<forall>(k, g) \<in> set (AList.delete key gs). nodes g \<noteq> []"
        using Cons.prems(2) by (auto simp: AList.delete_eq)
      have "filter (\<lambda>(k, g). k \<notin> set keys \<or> mainNodeChanges g \<noteq> []) (AList.delete key gs) =
            filter (\<lambda>(k, g). k \<notin> set (key # keys) \<or> mainNodeChanges g \<noteq> []) gs"
        unfolding AList.delete_eq filter_filter
        by (rule filter_cong) (use True mc uniq in auto)
      with Cons.IH[OF d ne] Some n0 True show ?thesis by simp
    next
      case False
      have "filter (\<lambda>(k, g). k \<notin> set keys \<or> mainNodeChanges g \<noteq> []) gs =
            filter (\<lambda>(k, g). k \<notin> set (key # keys) \<or> mainNodeChanges g \<noteq> []) gs"
        by (rule filter_cong) (use False mc uniq in auto)
      with Cons.IH[OF Cons.prems] Some n0 False show ?thesis by simp
    qed
  qed
qed

lemma wellGrouped_nonempty:
  "wellGrouped gs \<Longrightarrow> \<forall>(k, g) \<in> set gs. nodes g \<noteq> []"
  unfolding wellGrouped_def by fastforce

text \<open>
  Claim C8. With a plan and the show-inactive flags off, on every well grouped map (as
  grouping produces it) the sweep returns, in the order of the map, exactly the groups
  whose main node has at least one change record, each with exactly its members that
  have at least one change record; the main node is the first member of every group, so
  a surviving group keeps it.
\<close>

theorem C8_pruning_sweep:
  assumes "wellGrouped nodeGroups"
  shows "parseModel_prune False False True nodeGroups =
           Inr (map (\<lambda>(key, g). (key, g \<lparr> nodes := filter (\<lambda>n. resourceChanges n \<noteq> []) (nodes g) \<rparr>))
                  (filter (\<lambda>(key, g). mainNodeChanges g \<noteq> []) nodeGroups))
         \<and> (\<forall>(key, g) \<in> set nodeGroups.
               \<exists>first rest. nodes g = first # rest \<and> nodeModel first = mainNode g \<and>
                             mainNodeChanges g = resourceChanges first)"
proof -
  have d: "distinct (map fst nodeGroups)" using assms unfolding wellGrouped_def by simp
  have "filter (\<lambda>(k, g). k \<notin> set (map fst nodeGroups) \<or> mainNodeChanges g \<noteq> []) nodeGroups =
        filter (\<lambda>(key, g). mainNodeChanges g \<noteq> []) nodeGroups"
    by (rule filter_cong) (auto simp: image_iff)
  with prune_groups_filter[OF d wellGrouped_nonempty[OF assms], of "map fst nodeGroups"]
  have "prune_groups (map fst nodeGroups) nodeGroups =
          Inr (filter (\<lambda>(key, g). mainNodeChanges g \<noteq> []) nodeGroups)" by simp
  then have 1: "parseModel_prune False False True nodeGroups =
           Inr (map (\<lambda>(key, g). (key, g \<lparr> nodes := filter (\<lambda>n. resourceChanges n \<noteq> []) (nodes g) \<rparr>))
                  (filter (\<lambda>(key, g). mainNodeChanges g \<noteq> []) nodeGroups))"
    by (simp add: parseModel_prune_def prune_members_def)
  have 2: "\<forall>(key, g) \<in> set nodeGroups.
               \<exists>first rest. nodes g = first # rest \<and> nodeModel first = mainNode g \<and>
                             mainNodeChanges g = resourceChanges first"
    using assms unfolding wellGrouped_def mainNodeChanges_def by fastforce
  from 1 2 show ?thesis by blast
qed

text \<open>
  On the cycle graph with a plan that creates the instance, the group survives and
  loses its two members without change records.
\<close>

theorem C8_pruning_sweep_witness:
  "parseModel_grouping 4 example_cycle (Some example_plan) [example_row] =
     Some (Inr [(''aws_instance.web'',
                 example_group [example_member ''n1 aws_instance.web'' example_plan,
                                example_member ''n2 aws_security_group.sg'' [],
                                example_member ''n3 data.aws_ami.u'' []]
                   (JStr ''web-1'') ''create'')])
   \<and> parseModel_prune False False True
        [(''aws_instance.web'',
          example_group [example_member ''n1 aws_instance.web'' example_plan,
                         example_member ''n2 aws_security_group.sg'' [],
                         example_member ''n3 data.aws_ami.u'' []]
            (JStr ''web-1'') ''create'')] =
       Inr [(''aws_instance.web'',
             example_group [example_member ''n1 aws_instance.web'' example_plan]
               (JStr ''web-1'') ''create'')]"
proof -
  let ?gs = "[(''aws_instance.web'',
          example_group [example_member ''n1 aws_instance.web'' example_plan,
                         example_member ''n2 aws_security_group.sg'' [],
                         example_member ''n3 data.aws_ami.u'' []]
            (JStr ''web-1'') ''create'')]"
  have w: "wellGrouped ?gs"
    by (rule wellGrouped_parseModel_grouping[OF example_cycle_plan_grouping])
  have e: "map (\<lambda>(key, g). (key, g \<lparr> nodes := filter (\<lambda>n. resourceChanges n \<noteq> []) (nodes g) \<rparr>))
                  (filter (\<lambda>(key, g). mainNodeChanges g \<noteq> []) ?gs) =
           [(''aws_instance.web'',
             example_group [example_member ''n1 aws_instance.web'' example_plan]
               (JStr ''web-1'') ''create'')]"
    by code_simp
  from C8_pruning_sweep[OF w] e example_cycle_plan_grouping show ?thesis by simp
qed

section \<open>Rows that list the same type\<close>

lemma classify_empty: "\<not> isResourceWithName (checkHclBlockType [])"
  by code_simp

lemma addNodeToGroup_rows_of:
  assumes "addNodeToGroup node nodeGroups mainBlock jsonArray planJsonObj computeTerraformPlan
             = Inr nodeGroups'"
    and "centralPartOf (node_id node) = Some key"
    and "isResourceWithName (checkHclBlockType key)"
    and "getResourceNameAndType (processedBlockId (checkHclBlockType key)) = Inr (Some rt, Some rn)"
    and "rt \<noteq> []" "rn \<noteq> []"
  shows "\<exists>rcs. addNodeToGroup_rows jsonArray mainBlock node key rcs rt rn
                 (moduleName (checkHclBlockType key)) nodeGroups = Inr nodeGroups'"
  using assms classify_empty unfolding addNodeToGroup_def Let_def
  by (auto split: option.splits if_splits sum.splits prod.splits)

text \<open>
  Claim C5, amended. When seeding a node returns and rows of the table list its
  resource type as a main diagram block, the group stored under the node's block
  reference has the category, service name and (trimmed) icon path of the last such row
  in table order, and its name is the one resolved with the name attribute of that last
  row.
\<close>

theorem C5_last_matching_row:
  assumes "addNodeToGroup node nodeGroups True jsonArray planJsonObj computeTerraformPlan
             = Inr nodeGroups'"
    and "centralPartOf (node_id node) = Some key"
    and "isResourceWithName (checkHclBlockType key)"
    and "getResourceNameAndType (processedBlockId (checkHclBlockType key)) = Inr (Some rt, Some rn)"
    and "rt \<noteq> []" "rn \<noteq> []"
    and "filter (\<lambda>row. rowMatches True row rt) jsonArray = matching"
    and "matching \<noteq> []"
  shows "\<exists>g. map_of nodeGroups' key = Some g
           \<and> category g = simplifiedCategory (last matching)
           \<and> serviceName g = serviceNameCol (last matching)
           \<and> iconPath g = trim (iconPathCol (last matching))
           \<and> resolveName (mainNodeChanges g) (nameAttributeOf True (last matching) rt) rn
               = Inr (gname g)"
proof -
  from addNodeToGroup_rows_of[OF assms(1-6)] obtain rcs where
    r: "addNodeToGroup_rows jsonArray True node key rcs rt rn
          (moduleName (checkHclBlockType key)) nodeGroups = Inr nodeGroups'" ..
  from assms(7,8) have ne: "filter (\<lambda>row. rowMatches True row rt) jsonArray \<noteq> []" by simp
  from addNodeToGroup_rows_last[OF r ne] assms(7) show ?thesis
    by (auto simp: AList.update_conv' newGroup_def mainNodeChanges_def)
qed

text \<open>
  With two rows listing \<^verbatim>\<open>aws_instance\<close>, the group is the one of the second row, and
  its name is resolved with \<^verbatim>\<open>name\<close>, not with the \<^verbatim>\<open>tags.Name\<close> of the first row.
\<close>

theorem C5_last_matching_row_witness:
  "addNodeToGroup \<lparr> node_id = ''n1 aws_instance.web'' \<rparr> [] True [example_row, example_row2]
      (Some example_plan) True =
     Inr [(''aws_instance.web'',
           newGroup \<lparr> node_id = ''n1 aws_instance.web'' \<rparr> ''aws_instance.web'' example_row2
             (JStr ''web'') example_plan ''create'' ''aws_instance'' [])]
   \<and> filter (\<lambda>row. rowMatches True row ''aws_instance'') [example_row, example_row2]
       = [example_row, example_row2]
   \<and> (\<exists>g. map_of [(''aws_instance.web'',
           newGroup \<lparr> node_id = ''n1 aws_instance.web'' \<rparr> ''aws_instance.web'' example_row2
             (JStr ''web'') example_plan ''create'' ''aws_instance'' [])] ''aws_instance.web'' = Some g
         \<and> category g = simplifiedCategory example_row2
         \<and> serviceName g = serviceNameCol example_row2
         \<and> iconPath g = trim (iconPathCol example_row2)
         \<and> resolveName (mainNodeChanges g) (nameAttributeOf True example_row2 ''aws_instance'') ''web''
             = Inr (gname g))"
proof -
  have a: "addNodeToGroup \<lparr> node_id = ''n1 aws_instance.web'' \<rparr> [] True [example_row, example_row2]
      (Some example_plan) True =
     Inr [(''aws_instance.web'',
           newGroup \<lparr> node_id = ''n1 aws_instance.web'' \<rparr> ''aws_instance.web'' example_row2
             (JStr ''web'') example_plan ''create'' ''aws_instance'' [])]"
    by code_simp
  have c: "centralPartOf (node_id \<lparr> node_id = ''n1 aws_instance.web'' \<rparr>) = Some ''aws_instance.web''"
    by code_simp
  have w: "isResourceWithName (checkHclBlockType ''aws_instance.web'')" by code_simp
  have t: "getResourceNameAndType (processedBlockId (checkHclBlockType ''aws_instance.web''))
             = Inr (Some ''aws_instance'', Some ''web'')" by code_simp
  have m: "filter (\<lambda>row. rowMatches True row ''aws_instance'') [example_row, example_row2]
       = [example_row, example_row2]" by code_simp
  from C5_last_matching_row[OF a c w t _ _ m] a m show ?thesis by simp
qed

text \<open>
  The claim as stated fails: the first matching row is the first example row, and the
  group has category, service name and icon path of the second.
\<close>

theorem C5_last_matching_row_counterexample:
  "map (\<lambda>(key, g). (category g, serviceName g, iconPath g))
     (case addNodeToGroup \<lparr> node_id = ''n1 aws_instance.web'' \<rparr> [] True
             [example_row, example_row2] None False of
        Inl e \<Rightarrow> [] | Inr gs \<Rightarrow> gs)
     = [(''Storage'', ''S3'', ''s3.png'')]
   \<and> hd (filter (\<lambda>row. rowMatches True row ''aws_instance'') [example_row, example_row2])
       = example_row
   \<and> (simplifiedCategory example_row, serviceNameCol example_row, trim (iconPathCol example_row))
       = (''Compute'', ''EC2'', ''ec2.png'')"
  by code_simp

section \<open>Connections between groups\<close>

text \<open>
  A connection is pushed only when the key is not yet in the list, so the lists of a
  group never hold a key twice.
\<close>

lemma ownerEntry_in: "ownerEntry gs i = Some e \<Longrightarrow> e \<in> set gs"
proof -
  assume a: "ownerEntry gs i = Some e"
  let ?f = "filter (\<lambda>(key, group). list_ex (\<lambda>n. node_id (nodeModel n) = i) (nodes group)) gs"
  from a have "e \<in> set ?f"
    unfolding ownerEntry_def by (cases ?f) auto
  then show ?thesis by simp
qed

lemma modifyGroup_keys: "map fst (modifyGroup key f gs) = map fst gs"
  unfolding modifyGroup_def by (induction gs) auto

lemma modifyGroup_in:
  "(k, g') \<in> set (modifyGroup key f gs) \<Longrightarrow>
   \<exists>g. (k, g) \<in> set gs \<and> g' = (if k = key then f g else g)"
  unfolding modifyGroup_def by (induction gs) (auto split: if_splits)

lemma connectEdge_distinct:
  assumes "connectionsDistinct gs"
  shows "connectionsDistinct (connectEdge gs edge)"
proof (cases "ownerEntry gs (fst edge)")
  case None
  with assms show ?thesis by (simp add: connectEdge_def)
next
  case f: (Some fromGroup)
  show ?thesis
  proof (cases "ownerEntry gs (snd edge)")
    case None
    with f assms show ?thesis by (simp add: connectEdge_def)
  next
    case t: (Some toGroup)
    obtain fk fg where fe: "fromGroup = (fk, fg)" by (cases fromGroup)
    obtain tk tg where te: "toGroup = (tk, tg)" by (cases toGroup)
    from ownerEntry_in[OF f] fe have fin: "(fk, fg) \<in> set gs" by simp
    from ownerEntry_in[OF t] te have tin: "(tk, tg) \<in> set gs" by simp
    have dk: "distinct (map fst gs)" using assms unfolding connectionsDistinct_def by simp
    have dg: "\<And>k g. (k, g) \<in> set gs \<Longrightarrow> distinct (connectionsOut g) \<and> distinct (connectionsIn g)"
      using assms unfolding connectionsDistinct_def by blast
    show ?thesis
    proof (cases "tk \<notin> set (connectionsOut fg) \<and> fk \<notin> set (connectionsIn tg)")
      case False
      with f t fe te assms show ?thesis by (auto simp: connectEdge_def Let_def)
    next
      case True
      let ?fo = "\<lambda>group. group \<lparr> connectionsOut := connectionsOut group @ [tk] \<rparr>"
      let ?fi = "\<lambda>group. group \<lparr> connectionsIn := connectionsIn group @ [fk] \<rparr>"
      let ?gs' = "modifyGroup tk ?fi (modifyGroup fk ?fo gs)"
      have ce: "connectEdge gs edge = ?gs'"
        using f t fe te True by (simp add: connectEdge_def Let_def entriesDiffer_def)
      have k': "distinct (map fst ?gs')" using dk by (simp add: modifyGroup_keys)
      have "\<And>k g'. (k, g') \<in> set ?gs' \<Longrightarrow> distinct (connectionsOut g') \<and> distinct (connectionsIn g')"
      proof -
        fix k g' assume "(k, g') \<in> set ?gs'"
        from modifyGroup_in[OF this] obtain g1 where
          g1: "(k, g1) \<in> set (modifyGroup fk ?fo gs)" and g': "g' = (if k = tk then ?fi g1 else g1)"
          by blast
        from modifyGroup_in[OF g1] obtain g where
          g: "(k, g) \<in> set gs" and g1': "g1 = (if k = fk then ?fo g else g)" by blast
        have a: "k = fk \<Longrightarrow> g = fg" using dk g fin by (metis eq_key_imp_eq_value)
        have b: "k = tk \<Longrightarrow> g = tg" using dk g tin by (metis eq_key_imp_eq_value)
        from dg[OF g] a b True show "distinct (connectionsOut g') \<and> distinct (connectionsIn g')"
          unfolding g' g1' by auto
      qed
      with k' show ?thesis unfolding ce connectionsDistinct_def by blast
    qed
  qed
qed

lemma parseModel_connections_distinct:
  assumes "connectionsDistinct gs" "parseModel_connections gs model = Inr gs'"
  shows "connectionsDistinct gs'"
proof -
  have "connectionsDistinct (foldl connectEdge gs es)" for es
    using assms(1) by (induction es arbitrary: gs) (auto intro: connectEdge_distinct)
  with assms(2) show ?thesis
    unfolding parseModel_connections_def by (auto split: list.splits)
qed

text \<open>
  Claim C4. On the instance with its security group, both members of one group, the
  edge between them makes the group record itself in \<^verbatim>\<open>connectionsOut\<close> and in
  \<^verbatim>\<open>connectionsIn\<close>: a self-loop.
\<close>

theorem C4_self_loop:
  "(case parseModel_grouping 3 example_graph None [example_row] of
      Some (Inr gs) \<Rightarrow>
        (case parseModel_connections gs example_graph of
           Inr gs' \<Rightarrow> map (\<lambda>(key, g). (key, memberIds g, connectionsOut g, connectionsIn g)) gs'
         | Inl e \<Rightarrow> [])
    | _ \<Rightarrow> [])
   = [(''aws_instance.web'', [''n1 aws_instance.web'', ''n2 aws_security_group.sg''],
       [''aws_instance.web''], [''aws_instance.web''])]"
  by code_simp

end
